theory Spec2Isabelle
  imports Main "HOL-Library.Sublist"
begin

section \<open>Strings and paths\<close>

text \<open>
  \<open>str.startswith\<close> and \<open>str.replace\<close> of Python, on \<open>string\<close>. \<open>str_replace\<close> scans
  from the left and replaces non-overlapping occurrences; with an empty pattern Python
  inserts the replacement before every character and at the end.
\<close>

definition startswith :: "string \<Rightarrow> string \<Rightarrow> bool" where
  "startswith s p = (take (length p) s = p)"

function str_replace :: "string \<Rightarrow> string \<Rightarrow> string \<Rightarrow> string" where
  "str_replace old new [] = (if old = [] then new else [])"
| "str_replace old new (c # cs) =
     (if old = [] then new @ c # str_replace old new cs
      else if take (length old) (c # cs) = old
        then new @ str_replace old new (drop (length old) (c # cs))
      else c # str_replace old new cs)"
  by pat_completeness auto
termination
  by (relation "measure (\<lambda>(old, new, s). length s)") (auto simp: neq_Nil_conv)

text \<open>\<open>str.split(sep)\<close> for a one-character separator.\<close>

fun split_on :: "char \<Rightarrow> string \<Rightarrow> string list" where
  "split_on sep [] = [[]]"
| "split_on sep (x # xs) =
     (if x = sep then [] # split_on sep xs
      else (case split_on sep xs of
              [] \<Rightarrow> [[x]]
            | y # ys \<Rightarrow> (x # y) # ys))"

text \<open>
  A \<open>pathlib\<close> path of the POSIX flavour: its root (\<open>''''\<close>, \<open>''/''\<close> or \<open>''//''\<close>) and its
  components. \<open>Path_of s\<close> is the constructor call \<open>Path(s)\<close>: the root is split off as
  \<open>posixpath.splitroot\<close> does, empty components and \<open>.\<close> are dropped. \<open>truediv\<close> is the
  operator \<open>/\<close> on two paths: a right operand with a root replaces the left one.
\<close>

datatype path = Path (root: string) (segments: "string list")

definition splitroot :: "string \<Rightarrow> string \<times> string" where
  "splitroot p =
     (if take 1 p \<noteq> ''/'' then ('''', p)
      else if take 2 p = ''//'' \<and> take 3 p \<noteq> ''///'' then (''//'', drop 2 p)
      else (''/'', dropWhile (\<lambda>c. c = CHR ''/'') p))"

definition Path_of :: "string \<Rightarrow> path" where
  "Path_of s =
     (case splitroot s of
        (r, rel) \<Rightarrow> Path r (filter (\<lambda>x. x \<noteq> [] \<and> x \<noteq> ''.'') (split_on (CHR ''/'') rel)))"

definition truediv :: "path \<Rightarrow> path \<Rightarrow> path" where
  "truediv a b = (if root b \<noteq> [] then b else Path (root a) (segments a @ segments b))"

text \<open>\<open>os.path.join\<close> on two strings.\<close>

definition os_path_join :: "string \<Rightarrow> string \<Rightarrow> string" where
  "os_path_join a b =
     (if startswith b ''/'' then b
      else if a = [] \<or> last a = CHR ''/'' then a @ b
      else a @ ''/'' @ b)"

section \<open>The process and its file system\<close>

text \<open>
  The file system is a map from absolute component lists to nodes; the root directory is
  the empty list. Links, permissions and \<open>..\<close> are outside the model: a component is a
  name. \<open>cwd\<close> is \<open>os.getcwd()\<close>, \<open>environ\<close> is \<open>os.environ\<close> after \<open>load_dotenv()\<close> has
  run at import, \<open>requests_made\<close> counts the calls of \<open>requests.get\<close> so far, and \<open>trace\<close>
  records, in order, what the process tried on the network and on transferred files and
  what it logged and printed.
\<close>

datatype node = File string | Dir

datatype stat = Found node | ENOENT | ENOTDIR

datatype event =
    LogInfo string
  | LogError string
  | Print string
  | HttpGet string
  | OpenRead string
  | OpenWrite path
  | ProgressBar nat

record world =
  cwd :: string
  environ :: "string \<rightharpoonup> string"
  nodes :: "string list \<rightharpoonup> node"
  requests_made :: nat
  trace :: "event list"

datatype loc_item = Key string | Idx nat

datatype err_type =
    Missing | StringType | DictType | ListType | EnumError | ModelAttributesType

type_synonym verror = "loc_item list \<times> err_type"

datatype exn =
    FileNotFoundError
  | NotADirectoryError
  | IsADirectoryError
  | FileExistsError
  | JSONDecodeError
  | TypeError
  | ValueError
  | ValidationError "verror list"
  | NotImplementedError

definition emit :: "event \<Rightarrow> world \<Rightarrow> world" where
  "emit e w = w\<lparr>trace := trace w @ [e]\<rparr>"

definition is_File :: "node option \<Rightarrow> bool" where
  "is_File n = (case n of Some (File c) \<Rightarrow> True | _ \<Rightarrow> False)"

text \<open>
  What the kernel answers for an absolute component list: a proper prefix that is a
  regular file gives ENOTDIR, a missing node ENOENT.
\<close>

definition stat_key :: "(string list \<rightharpoonup> node) \<Rightarrow> string list \<Rightarrow> stat" where
  "stat_key t k =
     (if k = [] then Found Dir
      else if list_ex (\<lambda>q. is_File (t q)) (prefixes (butlast k)) then ENOTDIR
      else (case t k of None \<Rightarrow> ENOENT | Some n \<Rightarrow> Found n))"

definition abs_key :: "string \<Rightarrow> path \<Rightarrow> string list" where
  "abs_key wd p = (if root p = [] then segments (Path_of wd) @ segments p else segments p)"

definition stat_path :: "world \<Rightarrow> path \<Rightarrow> stat" where
  "stat_path w p = stat_key (nodes w) (abs_key (cwd w) p)"

text \<open>
  A path given to the kernel as a string: the empty string names nothing, and a string
  that ends in a slash or in \<open>/.\<close> names a directory only.
\<close>

definition must_be_dir :: "string \<Rightarrow> bool" where
  "must_be_dir s = (last (split_on (CHR ''/'') s) = [] \<or> last (split_on (CHR ''/'') s) = ''.'')"

definition stat_str :: "world \<Rightarrow> string \<Rightarrow> stat" where
  "stat_str w s =
     (if s = [] then ENOENT
      else (case stat_path w (Path_of s) of
              Found (File c) \<Rightarrow> (if must_be_dir s then ENOTDIR else Found (File c))
            | r \<Rightarrow> r))"

text \<open>\<open>Path.exists()\<close> and \<open>os.path.exists\<close>.\<close>

definition path_exists :: "world \<Rightarrow> path \<Rightarrow> bool" where
  "path_exists w p = (case stat_path w p of Found n \<Rightarrow> True | _ \<Rightarrow> False)"

definition os_path_exists :: "world \<Rightarrow> string \<Rightarrow> bool" where
  "os_path_exists w s = (case stat_str w s of Found n \<Rightarrow> True | _ \<Rightarrow> False)"

text \<open>
  \<open>os.path.getsize\<close>, called by the source only on a path that exists; the size the
  kernel reports for a directory is not modelled and taken as 0.
\<close>

definition getsize :: "world \<Rightarrow> string \<Rightarrow> nat" where
  "getsize w s = (case stat_str w s of Found (File c) \<Rightarrow> length c | _ \<Rightarrow> 0)"

text \<open>\<open>open(s, 'rb')\<close> and \<open>open(s, 'r')\<close> followed by reading the whole file.\<close>

definition open_read :: "world \<Rightarrow> string \<Rightarrow> exn + string" where
  "open_read w s =
     (case stat_str w s of
        Found (File c) \<Rightarrow> Inr c
      | Found Dir \<Rightarrow> Inl IsADirectoryError
      | ENOENT \<Rightarrow> Inl FileNotFoundError
      | ENOTDIR \<Rightarrow> Inl NotADirectoryError)"

text \<open>
  \<open>open(p, 'wb')\<close> on a path object: an existing file is truncated, a missing one is
  created when its parent is a directory.
\<close>

definition open_write :: "world \<Rightarrow> path \<Rightarrow> exn + world" where
  "open_write w p =
     (let k = abs_key (cwd w) p in
      case stat_key (nodes w) k of
        Found Dir \<Rightarrow> Inl IsADirectoryError
      | Found (File c) \<Rightarrow> Inr (w\<lparr>nodes := (nodes w)(k \<mapsto> File [])\<rparr>)
      | ENOTDIR \<Rightarrow> Inl NotADirectoryError
      | ENOENT \<Rightarrow>
          (case stat_key (nodes w) (butlast k) of
             Found Dir \<Rightarrow> Inr (w\<lparr>nodes := (nodes w)(k \<mapsto> File [])\<rparr>)
           | _ \<Rightarrow> Inl FileNotFoundError))"

text \<open>\<open>f.write(chunk)\<close> on the open destination: the bytes are appended.\<close>

definition write_bytes :: "path \<Rightarrow> string \<Rightarrow> world \<Rightarrow> world" where
  "write_bytes p chunk w =
     (let k = abs_key (cwd w) p in
      w\<lparr>nodes := (nodes w)(k \<mapsto> File ((case nodes w k of Some (File c) \<Rightarrow> c | _ \<Rightarrow> []) @ chunk))\<rparr>)"

text \<open>
  \<open>Path.mkdir(parents=True, exist_ok=True)\<close>: an existing directory is left alone, an
  existing file raises \<open>FileExistsError\<close>, and otherwise every missing ancestor and the
  directory itself are created.
\<close>

definition mkdir_parents :: "world \<Rightarrow> path \<Rightarrow> exn + world" where
  "mkdir_parents w p =
     (let k = abs_key (cwd w) p in
      case stat_key (nodes w) k of
        Found Dir \<Rightarrow> Inr w
      | Found (File c) \<Rightarrow> Inl FileExistsError
      | ENOTDIR \<Rightarrow> Inl NotADirectoryError
      | ENOENT \<Rightarrow>
          Inr (w\<lparr>nodes := (\<lambda>q. if q \<in> set (prefixes k) \<and> q \<noteq> [] \<and> nodes w q = None
                                then Some Dir else nodes w q)\<rparr>))"

section \<open>The network\<close>

text \<open>
  \<open>requests.get(url, stream=True)\<close> either raises a \<open>RequestException\<close> (no connection,
  timeout, name resolution, a URL it cannot use) or gives a response: its status code, its
  \<open>content-length\<close> header as \<open>int\<close> reads it, the chunks \<open>iter_content\<close> delivers, and
  whether the stream then ends or breaks with a \<open>RequestException\<close>. The answer may differ
  from one request to the next, so it depends on the number of requests made before.
\<close>

datatype header = NoHeader | IntHeader int | BadHeader

datatype stream_end = Complete | Broken

datatype response =
  Response (status_code: nat) (content_length: header) (chunks: "string list") (ending: stream_end)

datatype get_outcome = GetRaises | GetResponse response

section \<open>Parsed documents and the external collaborators\<close>

text \<open>
  What \<open>json.loads\<close> returns. A Python \<open>dict\<close> is an association list read with
  \<open>map_of\<close>; no field of the manifest accepts a number, so a float keeps its literal.
\<close>

datatype json =
    JNull
  | JBool bool
  | JInt int
  | JFloat string
  | JStr string
  | JList "json list"
  | JDict "(string \<times> json) list"

record externals =
  json_loads :: "string \<Rightarrow> json option"
  requests_get :: "nat \<Rightarrow> string \<Rightarrow> get_outcome"

section \<open>The fetcher\<close>

text \<open>
  \<open>iter(lambda: src.read(n), b"")\<close>: the chunks of at most \<open>n\<close> bytes, until a read
  returns nothing.
\<close>

function read_chunks :: "nat \<Rightarrow> string \<Rightarrow> string list" where
  "read_chunks n s = (if take n s = [] then [] else take n s # read_chunks n (drop n s))"
  by pat_completeness auto
termination
  by (relation "measure (\<lambda>(n, s). length s)") auto

declare read_chunks.simps [simp del]

fun write_all :: "path \<Rightarrow> string list \<Rightarrow> world \<Rightarrow> world" where
  "write_all p [] w = w"
| "write_all p (c # cs) w = write_all p cs (write_bytes p c w)"

text \<open>The loop over \<open>response.iter_content\<close>: an empty chunk is skipped.\<close>

fun write_nonempty :: "path \<Rightarrow> string list \<Rightarrow> world \<Rightarrow> world" where
  "write_nonempty p [] w = w"
| "write_nonempty p (c # cs) w =
     write_nonempty p cs (if c \<noteq> [] then write_bytes p c w else w)"

text \<open>\<open>shutil.copyfileobj\<close> reads and writes buffers of 64 KiB until a read is empty.\<close>

definition copyfileobj :: "string \<Rightarrow> path \<Rightarrow> world \<Rightarrow> world" where
  "copyfileobj content p w = write_all p (read_chunks (64 * 1024) content) w"

text \<open>The branch of \<open>_download_file\<close> for a \<open>file://\<close> locator (lines 128 to 139).\<close>

definition fetch_local :: "string \<Rightarrow> path \<Rightarrow> world \<Rightarrow> (exn + unit) \<times> world" where
  "fetch_local url destination w =
     (let local_path = str_replace ''file://'' [] url;
          total_size = (if os_path_exists w local_path then Some (getsize w local_path) else None);
          w1 = emit (OpenRead local_path) w
      in case open_read w1 local_path of
           Inl e \<Rightarrow> (Inl e, w1)
         | Inr content \<Rightarrow>
             (let w2 = emit (OpenWrite destination) w1
              in case open_write w2 destination of
                   Inl e \<Rightarrow> (Inl e, w2)
                 | Inr w3 \<Rightarrow>
                     (case total_size of
                        None \<Rightarrow> (Inr (), copyfileobj content destination w3)
                      | Some n \<Rightarrow>
                          (if n > 0
                           then (Inr (), write_all destination (read_chunks (1024 * 1024) content)
                                           (emit (ProgressBar n) w3))
                           else (Inr (), copyfileobj content destination w3)))))"

text \<open>
  The branch for every other locator (lines 142 to 159). \<open>raise_for_status\<close> raises for a
  status from 400 to 599. A \<open>RequestException\<close>, from the request, the status or the
  stream, is caught by the \<open>except\<close> clause, which prints it; the function then returns
  \<open>None\<close> as it does after a complete transfer. What \<open>int\<close> cannot read, and what \<open>open\<close>
  raises, is not caught.
\<close>

definition fetch_remote :: "externals \<Rightarrow> string \<Rightarrow> path \<Rightarrow> world \<Rightarrow> (exn + unit) \<times> world" where
  "fetch_remote X url destination w =
     (let w1 = (emit (HttpGet url) w)\<lparr>requests_made := Suc (requests_made w)\<rparr>
      in case requests_get X (requests_made w) url of
           GetRaises \<Rightarrow> (Inr (), emit (Print ''Error downloading the file:'') w1)
         | GetResponse r \<Rightarrow>
             (if 400 \<le> status_code r \<and> status_code r < 600
              then (Inr (), emit (Print ''Error downloading the file:'') w1)
              else if content_length r = BadHeader then (Inl ValueError, w1)
              else
                (let total_size = (case content_length r of IntHeader n \<Rightarrow> n | _ \<Rightarrow> 0);
                     w2 = emit (OpenWrite destination) w1
                 in case open_write w2 destination of
                      Inl e \<Rightarrow> (Inl e, w2)
                    | Inr w3 \<Rightarrow>
                        (let w4 = write_nonempty destination (chunks r)
                                    (if total_size > 0 then emit (ProgressBar (nat total_size)) w3
                                     else w3)
                         in case ending r of
                              Complete \<Rightarrow> (Inr (), w4)
                            | Broken \<Rightarrow> (Inr (), emit (Print ''Error downloading the file:'') w4)))))"

text \<open>\<open>_download_file\<close> (an identifier cannot start with an underscore here).\<close>

definition download_file :: "externals \<Rightarrow> string \<Rightarrow> path \<Rightarrow> world \<Rightarrow> (exn + unit) \<times> world" where
  "download_file X url destination w =
     (if path_exists w destination
      then (Inr (), emit (LogInfo ''File already exists, skipping download.'') w)
      else if startswith url ''file://'' then fetch_local url destination w
      else fetch_remote X url destination w)"

section \<open>The manifest and its validation\<close>

datatype ModelType = GGUF | SAFETENSORS

fun ModelType_value :: "ModelType \<Rightarrow> string" where
  "ModelType_value GGUF = ''gguf''"
| "ModelType_value SAFETENSORS = ''safetensors''"

record BaseModelConfig =
  name :: string
  description :: string
  runtime_kwargs :: "(string \<times> string) list"

record GGUFModelsConfig = BaseModelConfig +
  model_type :: ModelType
  url :: string
  mmproj :: "string option"

text \<open>
  \<open>SafetensorsModelsConfig\<close> declares \<open>model_type\<close> again, with another default; the field
  is \<open>st_model_type\<close> here, since two records of one theory cannot share a field name.
\<close>

record SafetensorsModelsConfig = BaseModelConfig +
  st_model_type :: ModelType

datatype model = GGUFModel GGUFModelsConfig | SafetensorsModel SafetensorsModelsConfig

text \<open>
  The classes carry no validator of their own: what is checked is what pydantic (version 2)
  checks for the declared field types. Each field gives its errors and its value; a
  model collects the errors of all its fields, a list those of all its items, each under
  its location. \<open>name\<close>, \<open>description\<close> and \<open>url\<close> are required strings, \<open>runtime_kwargs\<close>
  defaults to the empty dict, \<open>model_type\<close> to the class's own tag, \<open>mmproj\<close> to \<open>None\<close>.
\<close>

definition field_str :: "(string \<times> json) list \<Rightarrow> string \<Rightarrow> verror list \<times> string" where
  "field_str kvs f =
     (case map_of kvs f of
        None \<Rightarrow> ([([Key f], Missing)], [])
      | Some (JStr s) \<Rightarrow> ([], s)
      | Some _ \<Rightarrow> ([([Key f], StringType)], []))"

definition field_opt_str :: "(string \<times> json) list \<Rightarrow> string \<Rightarrow> verror list \<times> string option" where
  "field_opt_str kvs f =
     (case map_of kvs f of
        None \<Rightarrow> ([], None)
      | Some JNull \<Rightarrow> ([], None)
      | Some (JStr s) \<Rightarrow> ([], Some s)
      | Some _ \<Rightarrow> ([([Key f], StringType)], None))"

definition str_of :: "json \<Rightarrow> string" where
  "str_of j = (case j of JStr s \<Rightarrow> s | _ \<Rightarrow> [])"

definition is_JStr :: "json \<Rightarrow> bool" where
  "is_JStr j = (case j of JStr s \<Rightarrow> True | _ \<Rightarrow> False)"

definition field_kwargs ::
  "(string \<times> json) list \<Rightarrow> string \<Rightarrow> verror list \<times> (string \<times> string) list" where
  "field_kwargs kvs f =
     (case map_of kvs f of
        None \<Rightarrow> ([], [])
      | Some (JDict d) \<Rightarrow>
          (concat (map (\<lambda>(k, v). if is_JStr v then [] else [([Key f, Key k], StringType)]) d),
           map (\<lambda>(k, v). (k, str_of v)) d)
      | Some _ \<Rightarrow> ([([Key f], DictType)], []))"

definition field_model_type ::
  "ModelType \<Rightarrow> (string \<times> json) list \<Rightarrow> string \<Rightarrow> verror list \<times> ModelType" where
  "field_model_type dflt kvs f =
     (case map_of kvs f of
        None \<Rightarrow> ([], dflt)
      | Some (JStr s) \<Rightarrow>
          (if s = ''gguf'' then ([], GGUF)
           else if s = ''safetensors'' then ([], SAFETENSORS)
           else ([([Key f], EnumError)], dflt))
      | Some _ \<Rightarrow> ([([Key f], EnumError)], dflt))"

definition parse_GGUFModelsConfig :: "json \<Rightarrow> verror list + GGUFModelsConfig" where
  "parse_GGUFModelsConfig j =
     (case j of
        JDict kvs \<Rightarrow>
          (let (e1, n) = field_str kvs ''name'';
               (e2, d) = field_str kvs ''description'';
               (e3, k) = field_kwargs kvs ''runtime_kwargs'';
               (e4, t) = field_model_type GGUF kvs ''model_type'';
               (e5, u) = field_str kvs ''url'';
               (e6, p) = field_opt_str kvs ''mmproj'';
               errs = e1 @ e2 @ e3 @ e4 @ e5 @ e6
           in if errs = []
              then Inr \<lparr>name = n, description = d, runtime_kwargs = k,
                        model_type = t, url = u, mmproj = p\<rparr>
              else Inl errs)
      | _ \<Rightarrow> Inl [([], ModelAttributesType)])"

definition parse_SafetensorsModelsConfig :: "json \<Rightarrow> verror list + SafetensorsModelsConfig" where
  "parse_SafetensorsModelsConfig j =
     (case j of
        JDict kvs \<Rightarrow>
          (let (e1, n) = field_str kvs ''name'';
               (e2, d) = field_str kvs ''description'';
               (e3, k) = field_kwargs kvs ''runtime_kwargs'';
               (e4, t) = field_model_type SAFETENSORS kvs ''model_type'';
               errs = e1 @ e2 @ e3 @ e4
           in if errs = []
              then Inr \<lparr>name = n, description = d, runtime_kwargs = k, st_model_type = t\<rparr>
              else Inl errs)
      | _ \<Rightarrow> Inl [([], ModelAttributesType)])"

definition errors_of :: "verror list + 'a \<Rightarrow> verror list" where
  "errors_of r = (case r of Inl es \<Rightarrow> es | Inr v \<Rightarrow> [])"

definition field_list ::
  "(json \<Rightarrow> verror list) \<Rightarrow> (string \<times> json) list \<Rightarrow> string \<Rightarrow> verror list" where
  "field_list item_errors kvs f =
     (case map_of kvs f of
        None \<Rightarrow> [([Key f], Missing)]
      | Some (JList xs) \<Rightarrow>
          concat (map (\<lambda>(i, x). map (\<lambda>(loc, t). (Key f # Idx i # loc, t)) (item_errors x))
                      (enumerate 0 xs))
      | Some _ \<Rightarrow> [([Key f], ListType)])"

text \<open>\<open>ModelsConfig(**model_definitions)\<close> on the keyword arguments \<open>kvs\<close>: the errors found.\<close>

definition validate_ModelsConfig :: "(string \<times> json) list \<Rightarrow> verror list" where
  "validate_ModelsConfig kvs =
     field_list (\<lambda>x. errors_of (parse_GGUFModelsConfig x)) kvs ''ggufs''
     @ field_list (\<lambda>x. errors_of (parse_SafetensorsModelsConfig x)) kvs ''safetensors''"

text \<open>
  \<open>_load_and_validate_models\<close>: read the file, parse it, validate it, and return the
  parsed document itself (not the validated model). \<open>**\<close> on anything but a \<open>dict\<close> is a
  \<open>TypeError\<close>.
\<close>

definition load_and_validate_models ::
  "externals \<Rightarrow> string \<Rightarrow> world \<Rightarrow> (exn + json) \<times> world" where
  "load_and_validate_models X models_file_path w =
     (case open_read w models_file_path of
        Inl e \<Rightarrow> (Inl e, w)
      | Inr text \<Rightarrow>
          (case json_loads X text of
             None \<Rightarrow> (Inl JSONDecodeError, w)
           | Some model_definitions \<Rightarrow>
               (case model_definitions of
                  JDict kvs \<Rightarrow>
                    (if validate_ModelsConfig kvs = []
                     then (Inr model_definitions, emit (LogInfo ''Models validated.'') w)
                     else (Inl (ValidationError (validate_ModelsConfig kvs)),
                           emit (LogError ''Config failed serialization.'') w))
                | _ \<Rightarrow> (Inl TypeError, w))))"

section \<open>The orchestrator\<close>

definition get_models_directory :: "world \<Rightarrow> path" where
  "get_models_directory w =
     (let models_dir = (case environ w ''MODELS_DIR'' of None \<Rightarrow> ''models'' | Some v \<Rightarrow> v)
      in truediv (Path_of (cwd w)) (Path_of models_dir))"

text \<open>
  The paths \<open>download_model_files\<close> builds: the directory of a GGUF model (line 166), of a
  safetensors model (line 174), and the two file names (lines 170 and 172).
\<close>

definition gguf_model_directory :: "world \<Rightarrow> GGUFModelsConfig \<Rightarrow> path" where
  "gguf_model_directory w m =
     truediv (truediv (get_models_directory w) (Path_of (ModelType_value (model_type m))))
             (Path_of (name m))"

definition safetensors_model_directory :: "world \<Rightarrow> SafetensorsModelsConfig \<Rightarrow> path" where
  "safetensors_model_directory w m =
     truediv (get_models_directory w) (Path_of (ModelType_value (st_model_type m)))"

definition primary_filename :: "GGUFModelsConfig \<Rightarrow> string" where
  "primary_filename m = name m @ ''.gguf''"

definition mmproj_filename :: "GGUFModelsConfig \<Rightarrow> string" where
  "mmproj_filename m = ''mmproj_'' @ name m @ ''.gguf''"

text \<open>
  \<open>download_model_files\<close>. \<open>if model.mmproj\<close> holds for a string that is not empty. The
  last \<open>else\<close> of the source, for an object of neither class, has no value of type
  \<open>model\<close>.
\<close>

fun download_model_files :: "externals \<Rightarrow> model \<Rightarrow> world \<Rightarrow> (exn + unit) \<times> world" where
  "download_model_files X (GGUFModel m) w =
     (let model_directory = gguf_model_directory w m
      in case mkdir_parents w model_directory of
           Inl e \<Rightarrow> (Inl e, w)
         | Inr w1 \<Rightarrow>
             (case download_file X (url m) (truediv model_directory (Path_of (primary_filename m))) w1 of
                (Inl e, w2) \<Rightarrow> (Inl e, w2)
              | (Inr u, w2) \<Rightarrow>
                  (case mmproj m of
                     None \<Rightarrow> (Inr (), w2)
                   | Some a \<Rightarrow>
                       (if a \<noteq> []
                        then download_file X a
                               (truediv model_directory (Path_of (mmproj_filename m))) w2
                        else (Inr (), w2)))))"
| "download_model_files X (SafetensorsModel m) w =
     (let model_directory = safetensors_model_directory w m
      in case mkdir_parents w model_directory of
           Inl e \<Rightarrow> (Inl e, w)
         | Inr w1 \<Rightarrow> (Inl NotImplementedError, w1))"

text \<open>
  The loop of \<open>download_models\<close> over \<open>models_definition.get("ggufs", [])\<close>: each item is
  parsed again as a \<open>GGUFModelsConfig\<close> and handed to \<open>download_model_files\<close>; the first
  exception ends the run.
\<close>

fun download_each :: "externals \<Rightarrow> json list \<Rightarrow> world \<Rightarrow> (exn + unit) \<times> world" where
  "download_each X [] w = (Inr (), w)"
| "download_each X (item # items) w =
     (case item of
        JDict kvs \<Rightarrow>
          (case parse_GGUFModelsConfig item of
             Inl errs \<Rightarrow> (Inl (ValidationError errs), w)
           | Inr parsed_model \<Rightarrow>
               (case download_model_files X (GGUFModel parsed_model) w of
                  (Inl e, w1) \<Rightarrow> (Inl e, w1)
                | (Inr u, w1) \<Rightarrow> download_each X items w1))
      | _ \<Rightarrow> (Inl TypeError, w))"

text \<open>
  \<open>download_models\<close>, with the three options of the command. After validation the
  document is a \<open>dict\<close> whose \<open>ggufs\<close> is a list; the other shapes are here for totality.
\<close>

definition download_models ::
  "externals \<Rightarrow> string \<Rightarrow> string \<Rightarrow> bool \<Rightarrow> world \<Rightarrow> (exn + unit) \<times> world" where
  "download_models X models_file models_dir overwrite w =
     (let models_file_path = os_path_join (cwd w) models_file
      in case load_and_validate_models X models_file_path w of
           (Inl e, w1) \<Rightarrow> (Inl e, w1)
         | (Inr models_definition, w1) \<Rightarrow>
             (case models_definition of
                JDict kvs \<Rightarrow>
                  (case map_of kvs ''ggufs'' of
                     None \<Rightarrow> (Inr (), w1)
                   | Some (JList items) \<Rightarrow> download_each X items w1
                   | Some _ \<Rightarrow> (Inl TypeError, w1))
              | _ \<Rightarrow> (Inl TypeError, w1)))"

section \<open>Observations and concrete inputs\<close>

text \<open>
  What a call added to the trace, and which events are network or file transfer: a
  request, the opening of a local source, the opening of a destination.
\<close>

definition new_events :: "world \<Rightarrow> world \<Rightarrow> event list" where
  "new_events w w' = drop (length (trace w)) (trace w')"

fun transfer_io :: "event \<Rightarrow> bool" where
  "transfer_io (HttpGet u) = True"
| "transfer_io (OpenRead s) = True"
| "transfer_io (OpenWrite p) = True"
| "transfer_io e = False"

text \<open>
  A small process: the working directory \<open>/w\<close> holds the manifest \<open>models.json\<close> and a
  local fixture \<open>f\<close> of three bytes; \<open>MODELS_DIR\<close> is not set.
\<close>

definition ex_world :: world where
  "ex_world =
     \<lparr>cwd = ''/w'', environ = Map.empty,
      nodes = [[''w''] \<mapsto> Dir, [''w'', ''models.json''] \<mapsto> File ''M'',
               [''w'', ''f''] \<mapsto> File ''abc''],
      requests_made = 0, trace = []\<rparr>"

text \<open>The collaborators: the manifest file parses to \<open>doc\<close>, every request gets \<open>answer\<close>.\<close>

definition ex_ext :: "json \<Rightarrow> get_outcome \<Rightarrow> externals" where
  "ex_ext doc answer =
     \<lparr>json_loads = (\<lambda>s. if s = ''M'' then Some doc else None),
      requests_get = (\<lambda>n u. answer)\<rparr>"

text \<open>One quantized entry, fetched from the fixture, and one tensor-weights entry.\<close>

definition ex_manifest :: json where
  "ex_manifest =
     JDict [(''ggufs'', JList [JDict [(''name'', JStr ''q''), (''description'', JStr ''d''),
                                      (''url'', JStr ''file:///w/f'')]]),
            (''safetensors'', JList [JDict [(''name'', JStr ''t''), (''description'', JStr ''d'')]])]"

text \<open>A destination in the working directory, and a response that delivers three bytes.\<close>

definition ex_dest :: path where
  "ex_dest = Path ''/'' [''w'', ''x.gguf'']"

definition ex_ok :: get_outcome where
  "ex_ok = GetResponse (Response 200 (IntHeader 3) [''ab'', ''c''] Complete)"

text \<open>A quantized entry with a projector, both behind remote locators.\<close>

definition ex_mm :: GGUFModelsConfig where
  "ex_mm = \<lparr>name = ''q'', description = ''d'', runtime_kwargs = [], model_type = GGUF,
            url = ''http://h/p'', mmproj = Some ''http://h/a''\<rparr>"

definition ex_st :: SafetensorsModelsConfig where
  "ex_st = \<lparr>name = ''t'', description = ''d'', runtime_kwargs = [], st_model_type = SAFETENSORS\<rparr>"

text \<open>The quantized entry of \<open>ex_manifest\<close>, parsed.\<close>

definition ex_q :: GGUFModelsConfig where
  "ex_q = \<lparr>name = ''q'', description = ''d'', runtime_kwargs = [], model_type = GGUF,
           url = ''file:///w/f'', mmproj = None\<rparr>"

text \<open>
  The constraint violations the specification lists for a manifest, stated on the parsed
  document and not through the validator: a collection that is missing or not a list, an
  entry that is not an object, a required field that is missing, a field of the wrong
  type, a \<open>model_type\<close> that is not a tag of the enumeration. \<open>entry_at kvs c i fs\<close>: the
  \<open>i\<close>-th entry of collection \<open>c\<close> is the object \<open>fs\<close>.
\<close>

definition is_JList :: "json \<Rightarrow> bool" where
  "is_JList j = (case j of JList xs \<Rightarrow> True | _ \<Rightarrow> False)"

definition is_JDict :: "json \<Rightarrow> bool" where
  "is_JDict j = (case j of JDict d \<Rightarrow> True | _ \<Rightarrow> False)"

definition collections :: "string list" where
  "collections = [''ggufs'', ''safetensors'']"

definition required_fields :: "string \<Rightarrow> string list" where
  "required_fields c =
     (if c = ''ggufs'' then [''name'', ''description'', ''url''] else [''name'', ''description''])"

definition entry_at :: "(string \<times> json) list \<Rightarrow> string \<Rightarrow> nat \<Rightarrow> (string \<times> json) list \<Rightarrow> bool" where
  "entry_at kvs c i fs =
     (c \<in> set collections
      \<and> (case map_of kvs c of
            Some (JList xs) \<Rightarrow> i < length xs \<and> xs ! i = JDict fs
          | _ \<Rightarrow> False))"

inductive spec_violation :: "(string \<times> json) list \<Rightarrow> verror \<Rightarrow> bool" for kvs where
  collection_missing:
    "c \<in> set collections \<Longrightarrow> map_of kvs c = None \<Longrightarrow> spec_violation kvs ([Key c], Missing)"
| collection_not_list:
    "c \<in> set collections \<Longrightarrow> map_of kvs c = Some v \<Longrightarrow> \<not> is_JList v \<Longrightarrow>
     spec_violation kvs ([Key c], ListType)"
| entry_not_object:
    "c \<in> set collections \<Longrightarrow> map_of kvs c = Some (JList xs) \<Longrightarrow> i < length xs \<Longrightarrow>
     \<not> is_JDict (xs ! i) \<Longrightarrow> spec_violation kvs ([Key c, Idx i], ModelAttributesType)"
| field_missing:
    "entry_at kvs c i fs \<Longrightarrow> f \<in> set (required_fields c) \<Longrightarrow> map_of fs f = None \<Longrightarrow>
     spec_violation kvs ([Key c, Idx i, Key f], Missing)"
| field_not_string:
    "entry_at kvs c i fs \<Longrightarrow> f \<in> set (required_fields c) \<Longrightarrow> map_of fs f = Some v \<Longrightarrow>
     \<not> is_JStr v \<Longrightarrow> spec_violation kvs ([Key c, Idx i, Key f], StringType)"
| projector_not_string:
    "entry_at kvs ''ggufs'' i fs \<Longrightarrow> map_of fs ''mmproj'' = Some v \<Longrightarrow> v \<noteq> JNull \<Longrightarrow>
     \<not> is_JStr v \<Longrightarrow> spec_violation kvs ([Key ''ggufs'', Idx i, Key ''mmproj''], StringType)"
| model_type_unknown:
    "entry_at kvs c i fs \<Longrightarrow> map_of fs ''model_type'' = Some v \<Longrightarrow> v \<noteq> JStr ''gguf'' \<Longrightarrow>
     v \<noteq> JStr ''safetensors'' \<Longrightarrow>
     spec_violation kvs ([Key c, Idx i, Key ''model_type''], EnumError)"
| kwargs_not_dict:
    "entry_at kvs c i fs \<Longrightarrow> map_of fs ''runtime_kwargs'' = Some v \<Longrightarrow> \<not> is_JDict v \<Longrightarrow>
     spec_violation kvs ([Key c, Idx i, Key ''runtime_kwargs''], DictType)"
| kwargs_value_not_string:
    "entry_at kvs c i fs \<Longrightarrow> map_of fs ''runtime_kwargs'' = Some (JDict d) \<Longrightarrow>
     (k, v) \<in> set d \<Longrightarrow> \<not> is_JStr v \<Longrightarrow>
     spec_violation kvs ([Key c, Idx i, Key ''runtime_kwargs'', Key k], StringType)"

text \<open>The errors of one entry of collection \<open>c\<close>, as its class reports them.\<close>

definition entry_errors :: "string \<Rightarrow> json \<Rightarrow> verror list" where
  "entry_errors c x =
     (if c = ''ggufs'' then errors_of (parse_GGUFModelsConfig x)
      else errors_of (parse_SafetensorsModelsConfig x))"

text \<open>
  Manifests for the validator: two quantized entries named \<open>q\<close>; a quantized and a
  tensor-weights entry named \<open>q\<close>; two quantized entries named \<open>q\<close> of which the second
  has no \<open>url\<close>; and one quantized entry with three fields in violation.
\<close>

definition ex_dup_same :: "(string \<times> json) list" where
  "ex_dup_same =
     [(''ggufs'', JList [JDict [(''name'', JStr ''q''), (''description'', JStr ''d''),
                                (''url'', JStr ''u'')],
                         JDict [(''name'', JStr ''q''), (''description'', JStr ''e''),
                                (''url'', JStr ''v'')]]),
      (''safetensors'', JList [])]"

definition ex_dup_cross :: "(string \<times> json) list" where
  "ex_dup_cross =
     [(''ggufs'', JList [JDict [(''name'', JStr ''q''), (''description'', JStr ''d''),
                                (''url'', JStr ''u'')]]),
      (''safetensors'', JList [JDict [(''name'', JStr ''q''), (''description'', JStr ''e'')]])]"

definition ex_two :: "(string \<times> json) list" where
  "ex_two =
     [(''ggufs'', JList [JDict [(''name'', JStr ''q''), (''description'', JStr ''d''),
                                (''url'', JStr ''u'')],
                         JDict [(''name'', JStr ''q''), (''description'', JStr ''e'')]]),
      (''safetensors'', JList [])]"

definition ex_bad :: "(string \<times> json) list" where
  "ex_bad =
     [(''ggufs'', JList [JDict [(''description'', JStr ''d''), (''model_type'', JStr ''x''),
                                (''url'', JInt 3)]]),
      (''safetensors'', JList [])]"

text \<open>
  The models root in the words of the claim about it, \<open>MODELS_DIR\<close> (default \<open>models\<close>)
  joined to the working directory, and under a root \<open>R\<close> the directory, the two
  destinations and the file-system nodes of a quantized entry. They are written from the
  root and the entry alone, to be compared with what a run opens and changes.
\<close>

definition env_models_root :: "world \<Rightarrow> path" where
  "env_models_root w =
     truediv (Path_of (cwd w))
       (Path_of (case environ w ''MODELS_DIR'' of None \<Rightarrow> ''models'' | Some v \<Rightarrow> v))"

definition artifact_directory :: "path \<Rightarrow> GGUFModelsConfig \<Rightarrow> path" where
  "artifact_directory R g =
     truediv (truediv R (Path_of (ModelType_value (model_type g)))) (Path_of (name g))"

definition artifact_paths :: "path \<Rightarrow> GGUFModelsConfig \<Rightarrow> path set" where
  "artifact_paths R g =
     {truediv (artifact_directory R g) (Path_of (name g @ ''.gguf'')),
      truediv (artifact_directory R g) (Path_of (''mmproj_'' @ name g @ ''.gguf''))}"

definition artifact_keys :: "string \<Rightarrow> path \<Rightarrow> GGUFModelsConfig \<Rightarrow> string list set" where
  "artifact_keys wd R g =
     set (prefixes (abs_key wd (artifact_directory R g))) \<union> abs_key wd ` artifact_paths R g"

text \<open>
  \<open>footprint w w' P K\<close>: between \<open>w\<close> and \<open>w'\<close> every destination opened for writing is
  in \<open>P\<close> and every node that changed is in \<open>K\<close>.
\<close>

definition footprint :: "world \<Rightarrow> world \<Rightarrow> path set \<Rightarrow> string list set \<Rightarrow> bool" where
  "footprint w w' P K =
     ((\<forall>p. OpenWrite p \<in> set (new_events w w') \<longrightarrow> p \<in> P)
      \<and> (\<forall>k. nodes w' k \<noteq> nodes w k \<longrightarrow> k \<in> K))"

text \<open>
  The small process with \<open>MODELS_DIR\<close> set to \<open>m\<close>, and a response whose stream breaks
  after two bytes.
\<close>

definition ex_world_env :: world where
  "ex_world_env = ex_world\<lparr>environ := [''MODELS_DIR'' \<mapsto> ''m'']\<rparr>"

definition ex_broken :: get_outcome where
  "ex_broken = GetResponse (Response 200 NoHeader [''ab''] Broken)"

section \<open>How the primitives change the process\<close>

lemma emit_fields [simp]:
  "cwd (emit e w) = cwd w" "environ (emit e w) = environ w" "nodes (emit e w) = nodes w"
  "requests_made (emit e w) = requests_made w" "trace (emit e w) = trace w @ [e]"
  by (simp_all add: emit_def)

lemma stat_emit [simp]:
  "stat_path (emit e w) p = stat_path w p" "stat_str (emit e w) s = stat_str w s"
  by (simp_all add: stat_path_def stat_str_def)

lemma exists_emit [simp]:
  "path_exists (emit e w) p = path_exists w p" "os_path_exists (emit e w) s = os_path_exists w s"
  "open_read (emit e w) s = open_read w s" "getsize (emit e w) s = getsize w s"
  by (simp_all add: path_exists_def os_path_exists_def open_read_def getsize_def)

lemma stat_key_upd_self:
  assumes k: "k \<noteq> []" and s: "stat_key t k \<noteq> ENOTDIR"
  shows "stat_key (t(k \<mapsto> n)) k = Found n"
proof -
  have np: "\<not> prefix k (butlast k)"
    using k by (metis append_butlast_last_id prefix_order.dual_order.antisym
        not_Cons_self2 self_append_conv prefixI)
  from s k have "\<not> list_ex (\<lambda>q. is_File (t q)) (prefixes (butlast k))"
    by (auto simp: stat_key_def split: if_splits)
  then have "\<not> list_ex (\<lambda>q. is_File ((t(k \<mapsto> n)) q)) (prefixes (butlast k))"
    using np by (auto simp: list_ex_iff)
  then show ?thesis using k by (simp add: stat_key_def)
qed

lemma open_write_result:
  "open_write w p = Inr w' \<Longrightarrow> \<not> path_exists w p \<Longrightarrow>
   w' = w\<lparr>nodes := (nodes w)(abs_key (cwd w) p \<mapsto> File [])\<rparr> \<and> nodes w (abs_key (cwd w) p) = None
   \<and> abs_key (cwd w) p \<noteq> [] \<and> stat_key (nodes w) (abs_key (cwd w) p) = ENOENT"
  by (auto simp: open_write_def path_exists_def stat_path_def Let_def stat_key_def
      split: stat.splits node.splits if_splits option.splits)

lemma write_bytes_fields [simp]:
  "cwd (write_bytes p c w) = cwd w" "environ (write_bytes p c w) = environ w"
  "requests_made (write_bytes p c w) = requests_made w" "trace (write_bytes p c w) = trace w"
  by (simp_all add: write_bytes_def Let_def)

lemma write_all_fields [simp]:
  "cwd (write_all p cs w) = cwd w" "environ (write_all p cs w) = environ w"
  "requests_made (write_all p cs w) = requests_made w" "trace (write_all p cs w) = trace w"
  by (induction cs arbitrary: w; simp)+

lemma write_nonempty_fields [simp]:
  "cwd (write_nonempty p cs w) = cwd w" "environ (write_nonempty p cs w) = environ w"
  "requests_made (write_nonempty p cs w) = requests_made w" "trace (write_nonempty p cs w) = trace w"
  by (induction cs arbitrary: w; simp)+

lemma write_bytes_nodes:
  "nodes w (abs_key (cwd w) p) = Some (File c0) \<Longrightarrow>
   nodes (write_bytes p c w) = (nodes w)(abs_key (cwd w) p \<mapsto> File (c0 @ c))"
  by (simp add: write_bytes_def Let_def)

lemma write_all_nodes:
  "nodes w (abs_key (cwd w) p) = Some (File c0) \<Longrightarrow>
   nodes (write_all p cs w) = (nodes w)(abs_key (cwd w) p \<mapsto> File (c0 @ concat cs))"
proof (induction cs arbitrary: w c0)
  case Nil
  then show ?case by (simp add: fun_upd_idem)
next
  case (Cons c cs)
  have wb: "nodes (write_bytes p c w) = (nodes w)(abs_key (cwd w) p \<mapsto> File (c0 @ c))"
    using Cons.prems by (rule write_bytes_nodes)
  then have "nodes (write_bytes p c w) (abs_key (cwd (write_bytes p c w)) p) = Some (File (c0 @ c))"
    by simp
  from Cons.IH[OF this] show ?case
    by (simp add: wb fun_eq_iff)
qed

lemma write_nonempty_nodes:
  "nodes w (abs_key (cwd w) p) = Some (File c0) \<Longrightarrow>
   nodes (write_nonempty p cs w) = (nodes w)(abs_key (cwd w) p \<mapsto> File (c0 @ concat cs))"
proof (induction cs arbitrary: w c0)
  case Nil
  then show ?case by (simp add: fun_upd_idem)
next
  case (Cons c cs)
  show ?case
  proof (cases "c = []")
    case True
    then show ?thesis using Cons.IH[OF Cons.prems] by simp
  next
    case False
    have wb: "nodes (write_bytes p c w) = (nodes w)(abs_key (cwd w) p \<mapsto> File (c0 @ c))"
      using Cons.prems by (rule write_bytes_nodes)
    then have "nodes (write_bytes p c w) (abs_key (cwd (write_bytes p c w)) p) = Some (File (c0 @ c))"
      by simp
    from Cons.IH[OF this] False show ?thesis
      by (simp add: wb fun_eq_iff)
  qed
qed

text \<open>Reading in chunks and writing each chunk copies the content exactly.\<close>

lemma read_chunks_concat: "0 < n \<Longrightarrow> concat (read_chunks n s) = s"
proof (induction n s rule: read_chunks.induct)
  case (1 n s)
  show ?case
  proof (cases "take n s = []")
    case True
    with 1 show ?thesis by (subst read_chunks.simps) auto
  next
    case False
    with 1 show ?thesis by (subst read_chunks.simps) simp
  qed
qed

lemma copyfileobj_fields [simp]:
  "cwd (copyfileobj c p w) = cwd w" "environ (copyfileobj c p w) = environ w"
  "requests_made (copyfileobj c p w) = requests_made w" "trace (copyfileobj c p w) = trace w"
  by (simp_all add: copyfileobj_def)

lemma copyfileobj_nodes:
  "nodes w (abs_key (cwd w) p) = Some (File c0) \<Longrightarrow>
   nodes (copyfileobj c p w) = (nodes w)(abs_key (cwd w) p \<mapsto> File (c0 @ c))"
  by (simp add: copyfileobj_def write_all_nodes read_chunks_concat)

lemma mkdir_parents_frame:
  assumes "mkdir_parents w p = Inr w'"
  shows "cwd w' = cwd w \<and> environ w' = environ w \<and> trace w' = trace w
         \<and> requests_made w' = requests_made w \<and> nodes w \<subseteq>\<^sub>m nodes w'"
  using assms
  by (auto simp: mkdir_parents_def Let_def map_le_def split: stat.splits node.splits)

lemma mkdir_parents_dir:
  assumes "mkdir_parents w p = Inr w'"
  shows "stat_path w' p = Found Dir"
proof -
  let ?k = "abs_key (cwd w) p"
  show ?thesis
  proof (cases "stat_key (nodes w) ?k")
    case (Found n)
    with assms show ?thesis
      by (cases n) (auto simp: mkdir_parents_def Let_def stat_path_def)
  next
    case ENOENT
    then have k: "?k \<noteq> []" and nf: "\<not> list_ex (\<lambda>q. is_File (nodes w q)) (prefixes (butlast ?k))"
      and none: "nodes w ?k = None"
      by (auto simp: stat_key_def split: if_splits option.splits)
    from ENOENT assms have w': "w' = w\<lparr>nodes := (\<lambda>q. if q \<in> set (prefixes ?k) \<and> q \<noteq> [] \<and> nodes w q = None
                                then Some Dir else nodes w q)\<rparr>"
      by (simp add: mkdir_parents_def Let_def)
    have "\<not> list_ex (\<lambda>q. is_File (nodes w' q)) (prefixes (butlast ?k))"
      using nf by (auto simp: w' list_ex_iff is_File_def)
    moreover have "nodes w' ?k = Some Dir"
      using none k by (simp add: w')
    moreover have "cwd w' = cwd w" by (simp add: w')
    ultimately show ?thesis using k by (simp add: stat_path_def stat_key_def)
  next
    case ENOTDIR
    with assms show ?thesis by (simp add: mkdir_parents_def Let_def)
  qed
qed

lemma mkdir_parents_errors:
  "mkdir_parents w p = Inl e \<Longrightarrow> e = FileExistsError \<or> e = NotADirectoryError"
  by (auto simp: mkdir_parents_def Let_def split: stat.splits node.splits)

lemma open_read_errors:
  "open_read w s = Inl e \<Longrightarrow> e = FileNotFoundError \<or> e = NotADirectoryError \<or> e = IsADirectoryError"
  by (auto simp: open_read_def split: stat.splits node.splits)

lemma open_write_errors:
  "open_write w p = Inl e \<Longrightarrow> e = FileNotFoundError \<or> e = NotADirectoryError \<or> e = IsADirectoryError"
  by (auto simp: open_write_def Let_def split: stat.splits node.splits)

text \<open>
  A destination that did not exist, opened and then written: nothing that was there
  before has changed, and the destination exists.
\<close>

lemma opened_and_written:
  assumes ow: "open_write w p = Inr w3" and ne: "\<not> path_exists w p"
    and n4: "nodes w4 = (nodes w3)(abs_key (cwd w) p \<mapsto> File c)" and c4: "cwd w4 = cwd w"
  shows "nodes w \<subseteq>\<^sub>m nodes w4 \<and> path_exists w4 p"
proof -
  let ?k = "abs_key (cwd w) p"
  from open_write_result[OF ow ne] have w3: "nodes w3 = (nodes w)(?k \<mapsto> File [])"
    and none: "nodes w ?k = None" and k: "?k \<noteq> []" and st: "stat_key (nodes w) ?k = ENOENT"
    by auto
  have "nodes w4 = (nodes w)(?k \<mapsto> File c)" by (simp add: n4 w3)
  moreover from this have "stat_key (nodes w4) ?k = Found (File c)"
    using stat_key_upd_self[OF k, of "nodes w" "File c"] st by simp
  ultimately show ?thesis using none
    by (auto simp: map_le_def path_exists_def stat_path_def c4)
qed

lemma open_write_fields:
  "open_write w p = Inr w' \<Longrightarrow>
   cwd w' = cwd w \<and> environ w' = environ w \<and> trace w' = trace w \<and> requests_made w' = requests_made w
   \<and> nodes w' (abs_key (cwd w) p) = Some (File [])"
  by (auto simp: open_write_def Let_def split: stat.splits node.splits)

lemma fetch_local_frame:
  assumes ne: "\<not> path_exists w d" and r: "fetch_local u d w = (r, w')"
  shows "cwd w' = cwd w \<and> environ w' = environ w \<and> requests_made w' = requests_made w
         \<and> nodes w \<subseteq>\<^sub>m nodes w' \<and> prefix (trace w) (trace w')
         \<and> r \<noteq> Inl NotImplementedError \<and> (r = Inr () \<longrightarrow> path_exists w' d)"
proof -
  let ?lp = "str_replace ''file://'' [] u"
  let ?w1 = "emit (OpenRead ?lp) w"
  let ?w2 = "emit (OpenWrite d) ?w1"
  show ?thesis
  proof (cases "open_read w ?lp")
    case (Inl e)
    with r open_read_errors[OF Inl] show ?thesis
      by (auto simp: fetch_local_def Let_def)
  next
    case (Inr content)
    show ?thesis
    proof (cases "open_write ?w2 d")
      case (Inl e)
      with r Inr open_write_errors[OF Inl] show ?thesis
        by (auto simp: fetch_local_def Let_def)
    next
      case ow: (Inr w3)
      have ne2: "\<not> path_exists ?w2 d" using ne by simp
      note f3 = open_write_fields[OF ow]
      have k3: "nodes w3 (abs_key (cwd w3) d) = Some (File [])" using f3 by simp
      have eqs: "cwd w' = cwd w \<and> environ w' = environ w \<and> requests_made w' = requests_made w
          \<and> prefix (trace w) (trace w') \<and> r = Inr ()
          \<and> nodes w' = (nodes w3)(abs_key (cwd ?w2) d \<mapsto> File content)"
        using r Inr ow f3 k3
        by (auto simp: fetch_local_def Let_def copyfileobj_nodes write_all_nodes read_chunks_concat
            split: if_splits)
      then have "nodes ?w2 \<subseteq>\<^sub>m nodes w' \<and> path_exists w' d"
        using opened_and_written[OF ow ne2, of w' content] by simp
      with eqs show ?thesis by simp
    qed
  qed
qed


lemma fetch_remote_frame:
  assumes ne: "\<not> path_exists w d" and r: "fetch_remote X u d w = (r, w')"
  shows "cwd w' = cwd w \<and> environ w' = environ w
         \<and> nodes w \<subseteq>\<^sub>m nodes w' \<and> prefix (trace w) (trace w')
         \<and> r \<noteq> Inl NotImplementedError
         \<and> (r = Inr () \<and> Print ''Error downloading the file:'' \<notin> set (new_events w w')
              \<longrightarrow> path_exists w' d)"
proof -
  let ?w1 = "(emit (HttpGet u) w)\<lparr>requests_made := Suc (requests_made w)\<rparr>"
  let ?w2 = "emit (OpenWrite d) ?w1"
  let ?err = "Print ''Error downloading the file:''"
  show ?thesis
  proof (cases "requests_get X (requests_made w) u")
    case GetRaises
    with r show ?thesis
      by (auto simp: fetch_remote_def Let_def new_events_def)
  next
    case (GetResponse resp)
    show ?thesis
    proof (cases "(400 \<le> status_code resp \<and> status_code resp < 600) \<or> content_length resp = BadHeader")
      case True
      with r GetResponse show ?thesis
        by (auto simp: fetch_remote_def Let_def new_events_def split: if_splits)
    next
      case ok: False
      show ?thesis
      proof (cases "open_write ?w2 d")
        case (Inl e)
        with r GetResponse ok open_write_errors[OF Inl] show ?thesis
          by (auto simp: fetch_remote_def Let_def)
      next
        case ow: (Inr w3)
        have ne2: "\<not> path_exists ?w2 d"
          using ne by (simp add: path_exists_def stat_path_def)
        note f3 = open_write_fields[OF ow]
        let ?w3' = "if (case content_length resp of IntHeader n \<Rightarrow> n | _ \<Rightarrow> 0) > 0
                    then emit (ProgressBar (nat (case content_length resp of IntHeader n \<Rightarrow> n | _ \<Rightarrow> 0))) w3
                    else w3"
        let ?w4 = "write_nonempty d (chunks resp) ?w3'"
        have k3: "nodes ?w3' (abs_key (cwd ?w3') d) = Some (File [])" using f3 by simp
        have n4: "nodes ?w4 = (nodes w3)(abs_key (cwd ?w2) d \<mapsto> File (concat (chunks resp)))"
          using write_nonempty_nodes[OF k3, of "chunks resp"] f3 by simp
        have c4: "cwd ?w4 = cwd ?w2" using f3 by simp
        have ex4: "nodes ?w2 \<subseteq>\<^sub>m nodes ?w4 \<and> path_exists ?w4 d"
          using opened_and_written[OF ow ne2 n4 c4] .
        have w': "w' = (case ending resp of Complete \<Rightarrow> ?w4 | Broken \<Rightarrow> emit ?err ?w4)"
          and rr: "r = Inr ()"
          using r GetResponse ok ow
          by (auto simp: fetch_remote_def Let_def split: stream_end.splits)
        have "cwd w' = cwd w \<and> environ w' = environ w \<and> nodes w' = nodes ?w4
              \<and> prefix (trace w) (trace w') \<and> path_exists w' d = path_exists ?w4 d"
          using f3 by (auto simp: w' path_exists_def stat_path_def split: stream_end.splits)
        with ex4 rr show ?thesis by simp
      qed
    qed
  qed
qed

lemma download_file_frame:
  assumes r: "download_file X u d w = (r, w')"
  shows "cwd w' = cwd w \<and> environ w' = environ w
         \<and> nodes w \<subseteq>\<^sub>m nodes w' \<and> prefix (trace w) (trace w')
         \<and> r \<noteq> Inl NotImplementedError
         \<and> (r = Inr () \<and> Print ''Error downloading the file:'' \<notin> set (new_events w w')
              \<longrightarrow> path_exists w' d)"
proof (cases "path_exists w d")
  case True
  with r show ?thesis by (auto simp: download_file_def)
next
  case False
  show ?thesis
  proof (cases "startswith u ''file://''")
    case True
    with r False have "fetch_local u d w = (r, w')" by (simp add: download_file_def)
    from fetch_local_frame[OF False this] show ?thesis by simp
  next
    case nf: False
    with r False have "fetch_remote X u d w = (r, w')" by (simp add: download_file_def)
    from fetch_remote_frame[OF False this] show ?thesis by simp
  qed
qed

lemma download_model_files_frame:
  assumes r: "download_model_files X m w = (r, w')"
  shows "cwd w' = cwd w \<and> environ w' = environ w
         \<and> nodes w \<subseteq>\<^sub>m nodes w' \<and> prefix (trace w) (trace w')"
proof (cases m)
  case (GGUFModel g)
  let ?dir = "gguf_model_directory w g"
  show ?thesis
  proof (cases "mkdir_parents w ?dir")
    case (Inl e)
    with r GGUFModel show ?thesis by (simp add: Let_def)
  next
    case mk: (Inr w1)
    note f1 = mkdir_parents_frame[OF mk]
    obtain r2 w2 where d1: "download_file X (url g) (truediv ?dir (Path_of (primary_filename g))) w1 = (r2, w2)"
      by (cases "download_file X (url g) (truediv ?dir (Path_of (primary_filename g))) w1")
    note f2 = download_file_frame[OF d1]
    have f12: "cwd w2 = cwd w \<and> environ w2 = environ w \<and> nodes w \<subseteq>\<^sub>m nodes w2
               \<and> prefix (trace w) (trace w2)"
      using f1 f2 by (auto intro: map_le_trans)
    show ?thesis
    proof (cases "r2 = Inr () \<and> (\<exists>a. mmproj g = Some a \<and> a \<noteq> [])")
      case False
      then have "w' = w2"
        using r GGUFModel mk d1
        by (cases r2) (auto simp: Let_def split: option.splits if_splits)
      with f12 show ?thesis by simp
    next
      case True
      then obtain a where a: "mmproj g = Some a" "a \<noteq> []" and r2: "r2 = Inr ()" by auto
      have d2: "download_file X a (truediv ?dir (Path_of (mmproj_filename g))) w2 = (r, w')"
        using r GGUFModel mk d1 a r2 by (simp add: Let_def)
      note f3 = download_file_frame[OF d2]
      show ?thesis using f12 f3 by (auto intro: map_le_trans)
    qed
  qed
next
  case (SafetensorsModel s)
  show ?thesis
  proof (cases "mkdir_parents w (safetensors_model_directory w s)")
    case (Inl e)
    with r SafetensorsModel show ?thesis by (simp add: Let_def)
  next
    case mk: (Inr w1)
    with r SafetensorsModel mkdir_parents_frame[OF mk] show ?thesis by (auto simp: Let_def)
  qed
qed

lemma download_gguf_never_not_implemented:
  "fst (download_model_files X (GGUFModel g) w) \<noteq> Inl NotImplementedError"
proof -
  let ?dir = "gguf_model_directory w g"
  show ?thesis
  proof (cases "mkdir_parents w ?dir")
    case (Inl e)
    with mkdir_parents_errors[OF Inl] show ?thesis by (auto simp: Let_def)
  next
    case mk: (Inr w1)
    obtain r2 w2 where d1: "download_file X (url g) (truediv ?dir (Path_of (primary_filename g))) w1 = (r2, w2)"
      by (cases "download_file X (url g) (truediv ?dir (Path_of (primary_filename g))) w1")
    note f2 = download_file_frame[OF d1]
    show ?thesis
    proof (cases "r2 = Inr () \<and> (\<exists>a. mmproj g = Some a \<and> a \<noteq> [])")
      case False
      then show ?thesis
        using mk d1 f2
        by (cases r2) (auto simp: Let_def split: option.splits if_splits)
    next
      case True
      then obtain a where a: "mmproj g = Some a" "a \<noteq> []" and r2: "r2 = Inr ()" by auto
      obtain r3 w3 where d2: "download_file X a (truediv ?dir (Path_of (mmproj_filename g))) w2 = (r3, w3)"
        by (cases "download_file X a (truediv ?dir (Path_of (mmproj_filename g))) w2")
      from download_file_frame[OF d2] show ?thesis
        using mk d1 a r2 d2 by (simp add: Let_def)
    qed
  qed
qed

lemma download_each_frame:
  "download_each X items w = (r, w') \<Longrightarrow>
   cwd w' = cwd w \<and> environ w' = environ w \<and> nodes w \<subseteq>\<^sub>m nodes w' \<and> prefix (trace w) (trace w')
   \<and> r \<noteq> Inl NotImplementedError"
proof (induction items arbitrary: w)
  case Nil
  then show ?case by auto
next
  case (Cons item items)
  show ?case
  proof (cases "\<exists>kvs g. item = JDict kvs \<and> parse_GGUFModelsConfig item = Inr g")
    case False
    with Cons.prems show ?thesis
      by (auto split: json.splits sum.splits)
  next
    case True
    then obtain kvs g where it: "item = JDict kvs" "parse_GGUFModelsConfig (JDict kvs) = Inr g" by auto
    obtain r1 w1 where d: "download_model_files X (GGUFModel g) w = (r1, w1)"
      by (cases "download_model_files X (GGUFModel g) w")
    note f1 = download_model_files_frame[OF d]
    have ni: "r1 \<noteq> Inl NotImplementedError"
      using download_gguf_never_not_implemented[of X g w] d by simp
    show ?thesis
    proof (cases r1)
      case (Inl e)
      with Cons.prems it d f1 ni show ?thesis by auto
    next
      case (Inr u)
      with Cons.prems it d have "download_each X items w1 = (r, w')" by simp
      from Cons.IH[OF this] f1 show ?thesis by (auto intro: map_le_trans)
    qed
  qed
qed

lemma load_and_validate_models_frame:
  "load_and_validate_models X p w = (r, w') \<Longrightarrow>
   cwd w' = cwd w \<and> environ w' = environ w \<and> nodes w' = nodes w \<and> prefix (trace w) (trace w')
   \<and> r \<noteq> Inl NotImplementedError"
  using open_read_errors[of w p]
  by (auto simp: load_and_validate_models_def split: sum.splits option.splits json.splits if_splits)

lemma download_models_frame:
  assumes "download_models X mf md ow w = (r, w')"
  shows "cwd w' = cwd w \<and> environ w' = environ w \<and> nodes w \<subseteq>\<^sub>m nodes w'
         \<and> prefix (trace w) (trace w') \<and> r \<noteq> Inl NotImplementedError"
proof -
  obtain r1 w1 where l: "load_and_validate_models X (os_path_join (cwd w) mf) w = (r1, w1)"
    by (cases "load_and_validate_models X (os_path_join (cwd w) mf) w")
  note f1 = load_and_validate_models_frame[OF l]
  show ?thesis
  proof (cases "\<exists>kvs items. r1 = Inr (JDict kvs) \<and> map_of kvs ''ggufs'' = Some (JList items)")
    case False
    with assms l f1 show ?thesis
      by (auto simp: download_models_def Let_def split: sum.splits json.splits option.splits)
  next
    case True
    then obtain kvs items where k: "r1 = Inr (JDict kvs)" "map_of kvs ''ggufs'' = Some (JList items)"
      by auto
    with assms l have "download_each X items w1 = (r, w')"
      by (simp add: download_models_def Let_def)
    from download_each_frame[OF this] f1 show ?thesis by (auto intro: map_le_trans)
  qed
qed

section \<open>Concrete runs\<close>

lemmas ex_defs = ex_world_def ex_ext_def ex_manifest_def ex_dest_def ex_ok_def ex_mm_def ex_st_def

lemmas model_defs =
  download_models_def load_and_validate_models_def download_file_def fetch_local_def fetch_remote_def
  gguf_model_directory_def safetensors_model_directory_def get_models_directory_def
  primary_filename_def mmproj_filename_def mkdir_parents_def open_write_def open_read_def
  stat_str_def stat_path_def stat_key_def path_exists_def os_path_exists_def getsize_def
  abs_key_def Path_of_def splitroot_def truediv_def os_path_join_def startswith_def must_be_dir_def
  is_File_def write_bytes_def copyfileobj_def emit_def new_events_def
  validate_ModelsConfig_def field_list_def errors_of_def parse_GGUFModelsConfig_def
  parse_SafetensorsModelsConfig_def field_str_def field_opt_str_def field_kwargs_def
  field_model_type_def is_JStr_def str_of_def Let_def

lemma rejoin_result:
  "(case x of (Inl e, w1) \<Rightarrow> (Inl e, w1) | (Inr u, w1) \<Rightarrow> download_each X [] w1) = x"
  by (cases x) (auto split: sum.splits)

lemma ex_load:
  "load_and_validate_models (ex_ext ex_manifest a) (os_path_join (cwd ex_world) ''models.json'') ex_world
     = (Inr ex_manifest, emit (LogInfo ''Models validated.'') ex_world)"
  by (simp add: ex_defs model_defs)

lemma ex_parse:
  "parse_GGUFModelsConfig (JDict [(''name'', JStr ''q''), (''description'', JStr ''d''),
                                   (''url'', JStr ''file:///w/f'')]) = Inr ex_q"
  by (simp add: ex_q_def model_defs)

lemma single_entry_run:
  assumes "load_and_validate_models X (os_path_join (cwd w) mf) w = (Inr (JDict kvs), w1)"
    and "map_of kvs ''ggufs'' = Some (JList [JDict fs])"
    and "parse_GGUFModelsConfig (JDict fs) = Inr g"
  shows "download_models X mf md ow w = download_model_files X (GGUFModel g) w1"
  using assms by (simp add: download_models_def rejoin_result del: download_model_files.simps)

lemma ex_run:
  "download_models (ex_ext ex_manifest a) ''models.json'' md ow ex_world
     = download_model_files (ex_ext ex_manifest a) (GGUFModel ex_q)
         (emit (LogInfo ''Models validated.'') ex_world)"
  by (rule single_entry_run[OF ex_load[unfolded ex_manifest_def[THEN arg_cong[where f = Inr], THEN arg_cong[where f="\<lambda>x. (x, emit (LogInfo ''Models validated.'') ex_world)"]]] _ ex_parse]) simp

lemma ex_files:
  "fst (download_model_files (ex_ext ex_manifest a) (GGUFModel ex_q)
         (emit (LogInfo ''Models validated.'') ex_world)) = Inr ()
   \<and> nodes (snd (download_model_files (ex_ext ex_manifest a) (GGUFModel ex_q)
         (emit (LogInfo ''Models validated.'') ex_world))) [''w'', ''models'', ''gguf'', ''q'', ''q.gguf'']
       = Some (File ''abc'')
   \<and> nodes (snd (download_model_files (ex_ext ex_manifest a) (GGUFModel ex_q)
         (emit (LogInfo ''Models validated.'') ex_world))) [''w'', ''models'', ''safetensors''] = None"
  by (simp add: ex_q_def ex_defs model_defs read_chunks.simps)

text \<open>What \<open>_download_file\<close> does when the request itself raises.\<close>

lemma download_file_get_raises:
  assumes "\<not> path_exists w d" and "\<not> startswith u ''file://''"
    and "requests_get X (requests_made w) u = GetRaises"
  shows "download_file X u d w
           = (Inr (), emit (Print ''Error downloading the file:'')
                        ((emit (HttpGet u) w)\<lparr>requests_made := Suc (requests_made w)\<rparr>))"
  using assms by (simp add: download_file_def fetch_remote_def Let_def)

lemma path_exists_counters [simp]:
  "path_exists (w\<lparr>requests_made := n\<rparr>) d = path_exists w d"
  "path_exists (w\<lparr>trace := t\<rparr>) d = path_exists w d"
  by (simp_all add: path_exists_def stat_path_def)

lemma open_write_counters:
  "open_write w d = Inr w3 \<Longrightarrow>
   open_write (w\<lparr>requests_made := n, trace := t\<rparr>) d = Inr (w3\<lparr>requests_made := n, trace := t\<rparr>)"
  by (auto simp: open_write_def Let_def split: stat.splits node.splits)

lemma ex_dest_absent: "\<not> path_exists ex_world ex_dest"
  by (simp add: ex_defs model_defs)

lemma ex_local_fetch:
  "fst (download_file X ''file:///w/f'' ex_dest ex_world) = Inr ()
   \<and> trace (snd (download_file X ''file:///w/f'' ex_dest ex_world))
       = [OpenRead ''/w/f'', OpenWrite ex_dest, ProgressBar 3]
   \<and> nodes (snd (download_file X ''file:///w/f'' ex_dest ex_world)) [''w'', ''x.gguf'']
       = Some (File ''abc'')"
  by (simp add: ex_defs model_defs read_chunks.simps)

text \<open>A name without a slash is one path component.\<close>

lemma split_on_plain: "sep \<notin> set s \<Longrightarrow> split_on sep s = [s]"
  by (induction s) auto

lemma Path_of_plain:
  assumes "s \<noteq> []" and "s \<noteq> ''.''" and "CHR ''/'' \<notin> set s"
  shows "Path_of s = Path [] [s]"
proof -
  from assms obtain c cs where s: "s = c # cs" and c: "c \<noteq> CHR ''/''"
    by (cases s) auto
  then have "splitroot s = ([], s)" by (simp add: splitroot_def)
  with assms show ?thesis by (simp add: Path_of_def split_on_plain)
qed

lemma Path_of_ModelType_value: "Path_of (ModelType_value t) = Path [] [ModelType_value t]"
  by (cases t) (simp_all add: Path_of_def splitroot_def)

section \<open>What a run opens and changes\<close>

lemma new_events_compose:
  assumes "prefix (trace w) (trace w')" and "prefix (trace w') (trace w'')"
  shows "new_events w w'' = new_events w w' @ new_events w' w''"
proof -
  from assms obtain a b where "trace w' = trace w @ a" "trace w'' = trace w' @ b"
    by (auto simp: prefix_def)
  then show ?thesis by (simp add: new_events_def)
qed

lemma open_write_nodes:
  "open_write w p = Inr w' \<Longrightarrow>
   nodes w' = (nodes w)(abs_key (cwd w) p \<mapsto> File []) \<and> trace w' = trace w \<and> cwd w' = cwd w"
  by (auto simp: open_write_def Let_def split: stat.splits node.splits)

lemma mkdir_parents_writes:
  assumes "mkdir_parents w p = Inr w'"
  shows "new_events w w' = []
       \<and> (\<forall>k. nodes w' k \<noteq> nodes w k \<longrightarrow> k \<in> set (prefixes (abs_key (cwd w) p)))"
  using assms
  by (auto simp: mkdir_parents_def Let_def new_events_def split: stat.splits node.splits if_splits)

lemma fetch_local_writes:
  assumes r: "fetch_local u d w = (r, w')"
  shows "(\<forall>p. OpenWrite p \<in> set (new_events w w') \<longrightarrow> p = d)
       \<and> (\<forall>k. nodes w' k \<noteq> nodes w k \<longrightarrow> k = abs_key (cwd w) d)"
proof -
  let ?lp = "str_replace ''file://'' [] u"
  let ?w1 = "emit (OpenRead ?lp) w"
  let ?w2 = "emit (OpenWrite d) ?w1"
  show ?thesis
  proof (cases "open_read w ?lp")
    case (Inl e)
    with r show ?thesis by (auto simp: fetch_local_def Let_def new_events_def)
  next
    case (Inr content)
    show ?thesis
    proof (cases "open_write ?w2 d")
      case (Inl e)
      with r Inr show ?thesis by (auto simp: fetch_local_def Let_def new_events_def)
    next
      case ow: (Inr w3)
      note f3 = open_write_nodes[OF ow]
      have k3: "nodes w3 (abs_key (cwd w3) d) = Some (File [])" using f3 by simp
      have k3': "nodes (emit e w3) (abs_key (cwd (emit e w3)) d) = Some (File [])" for e
        using f3 by simp
      have "nodes w' = (nodes w)(abs_key (cwd w) d \<mapsto> File content)
          \<and> set (new_events w w') \<subseteq> {OpenRead ?lp, OpenWrite d} \<union> range ProgressBar"
        using r Inr ow f3
        by (auto simp: fetch_local_def Let_def copyfileobj_nodes[OF k3] write_all_nodes[OF k3']
            read_chunks_concat new_events_def split: if_splits)
      then show ?thesis by auto
    qed
  qed
qed

lemma fetch_remote_writes:
  assumes r: "fetch_remote X u d w = (r, w')"
  shows "(\<forall>p. OpenWrite p \<in> set (new_events w w') \<longrightarrow> p = d)
       \<and> (\<forall>k. nodes w' k \<noteq> nodes w k \<longrightarrow> k = abs_key (cwd w) d)"
proof -
  let ?w1 = "(emit (HttpGet u) w)\<lparr>requests_made := Suc (requests_made w)\<rparr>"
  let ?w2 = "emit (OpenWrite d) ?w1"
  let ?err = "Print ''Error downloading the file:''"
  show ?thesis
  proof (cases "requests_get X (requests_made w) u")
    case GetRaises
    with r show ?thesis by (auto simp: fetch_remote_def Let_def new_events_def)
  next
    case (GetResponse resp)
    show ?thesis
    proof (cases "(400 \<le> status_code resp \<and> status_code resp < 600) \<or> content_length resp = BadHeader")
      case True
      with r GetResponse show ?thesis
        by (auto simp: fetch_remote_def Let_def new_events_def split: if_splits)
    next
      case ok: False
      show ?thesis
      proof (cases "open_write ?w2 d")
        case (Inl e)
        with r GetResponse ok show ?thesis
          by (auto simp: fetch_remote_def Let_def new_events_def)
      next
        case ow: (Inr w3)
        note f3 = open_write_nodes[OF ow]
        let ?w3' = "if (case content_length resp of IntHeader n \<Rightarrow> n | _ \<Rightarrow> 0) > 0
                    then emit (ProgressBar (nat (case content_length resp of IntHeader n \<Rightarrow> n | _ \<Rightarrow> 0))) w3
                    else w3"
        let ?w4 = "write_nonempty d (chunks resp) ?w3'"
        have k3: "nodes ?w3' (abs_key (cwd ?w3') d) = Some (File [])" using f3 by simp
        have n4: "nodes ?w4 = (nodes w)(abs_key (cwd w) d \<mapsto> File (concat (chunks resp)))"
          using write_nonempty_nodes[OF k3, of "chunks resp"] f3 by simp
        have t4: "set (drop (length (trace w)) (trace ?w4)) \<subseteq> {HttpGet u, OpenWrite d} \<union> range ProgressBar"
          using f3 by auto
        have w': "w' = (case ending resp of Complete \<Rightarrow> ?w4 | Broken \<Rightarrow> emit ?err ?w4)"
          using r GetResponse ok ow
          by (auto simp: fetch_remote_def Let_def split: stream_end.splits)
        have "nodes w' = nodes ?w4
            \<and> set (new_events w w') \<subseteq> {HttpGet u, OpenWrite d, ?err} \<union> range ProgressBar"
          using t4 f3 by (auto simp: w' new_events_def split: stream_end.splits if_splits)
        with n4 show ?thesis by auto
      qed
    qed
  qed
qed

lemma download_file_writes:
  assumes "download_file X u d w = (r, w')"
  shows "(\<forall>p. OpenWrite p \<in> set (new_events w w') \<longrightarrow> p = d)
       \<and> (\<forall>k. nodes w' k \<noteq> nodes w k \<longrightarrow> k = abs_key (cwd w) d)"
proof (cases "path_exists w d")
  case True
  with assms show ?thesis by (auto simp: download_file_def new_events_def)
next
  case False
  show ?thesis
  proof (cases "startswith u ''file://''")
    case True
    with assms False have "fetch_local u d w = (r, w')" by (simp add: download_file_def)
    then show ?thesis by (rule fetch_local_writes)
  next
    case nf: False
    with assms False have "fetch_remote X u d w = (r, w')" by (simp add: download_file_def)
    then show ?thesis by (rule fetch_remote_writes)
  qed
qed

lemma footprint_same: "footprint w w P K"
  by (simp add: footprint_def new_events_def)

lemma footprint_mono: "footprint w w' P K \<Longrightarrow> P \<subseteq> P' \<Longrightarrow> K \<subseteq> K' \<Longrightarrow> footprint w w' P' K'"
  by (auto simp: footprint_def)

lemma footprint_compose:
  assumes "footprint w w' P K" and "footprint w' w'' P K"
    and "prefix (trace w) (trace w')" and "prefix (trace w') (trace w'')"
  shows "footprint w w'' P K"
proof -
  have "new_events w w'' = new_events w w' @ new_events w' w''"
    using assms(3,4) by (rule new_events_compose)
  moreover have "nodes w'' k \<noteq> nodes w k \<longrightarrow> nodes w'' k \<noteq> nodes w' k \<or> nodes w' k \<noteq> nodes w k" for k
    by auto
  ultimately show ?thesis using assms(1,2)
    unfolding footprint_def by (metis Un_iff set_append)
qed

lemma gguf_model_directory_env:
  "gguf_model_directory w g = artifact_directory (env_models_root w) g"
  by (simp add: gguf_model_directory_def get_models_directory_def env_models_root_def
      artifact_directory_def)

lemma download_model_files_footprint:
  assumes r: "download_model_files X (GGUFModel g) w = (r, w')"
  shows "footprint w w' (artifact_paths (env_models_root w) g)
           (artifact_keys (cwd w) (env_models_root w) g)"
proof -
  let ?D = "artifact_directory (env_models_root w) g"
  let ?P = "truediv ?D (Path_of (name g @ ''.gguf''))"
  let ?A = "truediv ?D (Path_of (''mmproj_'' @ name g @ ''.gguf''))"
  let ?Ps = "artifact_paths (env_models_root w) g"
  let ?Ks = "artifact_keys (cwd w) (env_models_root w) g"
  have inP: "?P \<in> ?Ps" "?A \<in> ?Ps" by (simp_all add: artifact_paths_def)
  have inK: "abs_key (cwd w) ?P \<in> ?Ks" "abs_key (cwd w) ?A \<in> ?Ks"
    "set (prefixes (abs_key (cwd w) ?D)) \<subseteq> ?Ks"
    by (auto simp: artifact_keys_def artifact_paths_def)
  show ?thesis
  proof (cases "mkdir_parents w ?D")
    case (Inl e)
    with r show ?thesis
      by (simp add: gguf_model_directory_env Let_def footprint_same)
  next
    case mk: (Inr w1)
    note f1 = mkdir_parents_frame[OF mk]
    have fp1: "footprint w w1 ?Ps ?Ks"
      using mkdir_parents_writes[OF mk] inK(3) by (auto simp: footprint_def)
    obtain r2 w2 where d1: "download_file X (url g) ?P w1 = (r2, w2)"
      by (cases "download_file X (url g) ?P w1")
    note f2 = download_file_frame[OF d1]
    have fp2: "footprint w1 w2 ?Ps ?Ks"
      using download_file_writes[OF d1] inP(1) inK(1) f1 by (auto simp: footprint_def)
    have pre1: "prefix (trace w) (trace w1)" "prefix (trace w1) (trace w2)"
      using f1 f2 by simp_all
    have fp12: "footprint w w2 ?Ps ?Ks"
      by (rule footprint_compose[OF fp1 fp2 pre1])
    have pre12: "prefix (trace w) (trace w2)" "cwd w2 = cwd w"
      using f1 f2 by auto
    show ?thesis
    proof (cases "r2 = Inr () \<and> (\<exists>a. mmproj g = Some a \<and> a \<noteq> [])")
      case False
      then have "w' = w2"
        using r mk d1
        by (cases r2) (auto simp: gguf_model_directory_env primary_filename_def Let_def
            split: option.splits if_splits)
      with fp12 show ?thesis by simp
    next
      case True
      then obtain a where a: "mmproj g = Some a" "a \<noteq> []" and r2: "r2 = Inr ()" by auto
      have d2: "download_file X a ?A w2 = (r, w')"
        using r mk d1 a r2
        by (simp add: gguf_model_directory_env primary_filename_def mmproj_filename_def Let_def)
      note f3 = download_file_frame[OF d2]
      have fp3: "footprint w2 w' ?Ps ?Ks"
        using download_file_writes[OF d2] inP(2) inK(2) pre12 by (auto simp: footprint_def)
      have pre3: "prefix (trace w2) (trace w')" using f3 by simp
      show ?thesis
        by (rule footprint_compose[OF fp12 fp3 pre12(1) pre3])
    qed
  qed
qed

lemma download_each_footprint:
  "download_each X items w = (r, w') \<Longrightarrow>
   footprint w w'
     (\<Union>g\<in>{g. Inr g \<in> parse_GGUFModelsConfig ` set items}. artifact_paths (env_models_root w) g)
     (\<Union>g\<in>{g. Inr g \<in> parse_GGUFModelsConfig ` set items}.
         artifact_keys (cwd w) (env_models_root w) g)"
proof (induction items arbitrary: w)
  case Nil
  then show ?case by (simp add: footprint_same)
next
  case (Cons item items)
  let ?G = "{g. Inr g \<in> parse_GGUFModelsConfig ` set (item # items)}"
  let ?G' = "{g. Inr g \<in> parse_GGUFModelsConfig ` set items}"
  have sub: "?G' \<subseteq> ?G" by auto
  show ?case
  proof (cases "\<exists>kvs g. item = JDict kvs \<and> parse_GGUFModelsConfig item = Inr g")
    case False
    with Cons.prems have "w' = w"
      by (auto split: json.splits sum.splits)
    then show ?thesis by (simp add: footprint_same)
  next
    case True
    then obtain kvs g where it: "item = JDict kvs" "parse_GGUFModelsConfig (JDict kvs) = Inr g" by auto
    then have gin: "g \<in> ?G" by (auto simp: image_iff intro: sym)
    obtain r1 w1 where d: "download_model_files X (GGUFModel g) w = (r1, w1)"
      by (cases "download_model_files X (GGUFModel g) w")
    note f1 = download_model_files_frame[OF d]
    have fp1: "footprint w w1 (\<Union>g\<in>?G. artifact_paths (env_models_root w) g)
                 (\<Union>g\<in>?G. artifact_keys (cwd w) (env_models_root w) g)"
      by (rule footprint_mono[OF download_model_files_footprint[OF d]]) (use gin in blast)+
    show ?thesis
    proof (cases r1)
      case (Inl e)
      with Cons.prems it d have "w' = w1" by auto
      with fp1 show ?thesis by simp
    next
      case (Inr u)
      with Cons.prems it d have rest: "download_each X items w1 = (r, w')" by simp
      have same: "env_models_root w1 = env_models_root w" "cwd w1 = cwd w"
        using f1 by (simp_all add: env_models_root_def)
      have ih: "footprint w1 w' (\<Union>g\<in>?G'. artifact_paths (env_models_root w) g)
                 (\<Union>g\<in>?G'. artifact_keys (cwd w) (env_models_root w) g)"
        using Cons.IH[OF rest] unfolding same .
      have subP: "(\<Union>g\<in>?G'. artifact_paths (env_models_root w) g)
                    \<subseteq> (\<Union>g\<in>?G. artifact_paths (env_models_root w) g)"
        using sub by (rule UN_mono) simp
      have subK: "(\<Union>g\<in>?G'. artifact_keys (cwd w) (env_models_root w) g)
                    \<subseteq> (\<Union>g\<in>?G. artifact_keys (cwd w) (env_models_root w) g)"
        using sub by (rule UN_mono) simp
      have fp2: "footprint w1 w' (\<Union>g\<in>?G. artifact_paths (env_models_root w) g)
                 (\<Union>g\<in>?G. artifact_keys (cwd w) (env_models_root w) g)"
        by (rule footprint_mono[OF ih subP subK])
      have pre: "prefix (trace w) (trace w1)" "prefix (trace w1) (trace w')"
        using download_each_frame[OF rest] f1 by simp_all
      show ?thesis
        by (rule footprint_compose[OF fp1 fp2 pre])
    qed
  qed
qed

lemma load_and_validate_models_footprint:
  "load_and_validate_models X p w = (r, w') \<Longrightarrow> footprint w w' P K"
  by (auto simp: load_and_validate_models_def footprint_def new_events_def
      split: sum.splits option.splits json.splits if_splits)

lemma download_models_footprint:
  assumes run: "download_models X mf md ow w = (r, w')"
    and load: "load_and_validate_models X (os_path_join (cwd w) mf) w = (Inr (JDict kvs), w0)"
    and items: "map_of kvs ''ggufs'' = Some (JList items)"
  shows "footprint w w'
     (\<Union>g\<in>{g. Inr g \<in> parse_GGUFModelsConfig ` set items}. artifact_paths (env_models_root w) g)
     (\<Union>g\<in>{g. Inr g \<in> parse_GGUFModelsConfig ` set items}.
         artifact_keys (cwd w) (env_models_root w) g)"
proof -
  note f0 = load_and_validate_models_frame[OF load]
  have same: "env_models_root w0 = env_models_root w" "cwd w0 = cwd w"
    using f0 by (simp_all add: env_models_root_def)
  from run load items have each: "download_each X items w0 = (r, w')"
    by (simp add: download_models_def Let_def)
  have pre: "prefix (trace w) (trace w0)" "prefix (trace w0) (trace w')"
    using download_each_frame[OF each] f0 by simp_all
  have fp2: "footprint w0 w'
     (\<Union>g\<in>{g. Inr g \<in> parse_GGUFModelsConfig ` set items}. artifact_paths (env_models_root w) g)
     (\<Union>g\<in>{g. Inr g \<in> parse_GGUFModelsConfig ` set items}.
         artifact_keys (cwd w) (env_models_root w) g)"
    using download_each_footprint[OF each] by (simp add: same)
  show ?thesis
    by (rule footprint_compose[OF load_and_validate_models_footprint[OF load] fp2 pre])
qed

lemma fetch_remote_opened:
  assumes ne: "\<not> path_exists w d" and r: "fetch_remote X u d w = (Inr (), w')"
    and o: "OpenWrite d \<in> set (new_events w w')"
  shows "path_exists w' d"
proof -
  let ?w1 = "(emit (HttpGet u) w)\<lparr>requests_made := Suc (requests_made w)\<rparr>"
  let ?w2 = "emit (OpenWrite d) ?w1"
  let ?err = "Print ''Error downloading the file:''"
  show ?thesis
  proof (cases "requests_get X (requests_made w) u")
    case GetRaises
    with r o show ?thesis
      by (auto simp: fetch_remote_def Let_def new_events_def)
  next
    case (GetResponse resp)
    show ?thesis
    proof (cases "(400 \<le> status_code resp \<and> status_code resp < 600) \<or> content_length resp = BadHeader")
      case True
      with r o GetResponse show ?thesis
        by (auto simp: fetch_remote_def Let_def new_events_def split: if_splits)
    next
      case ok: False
      show ?thesis
      proof (cases "open_write ?w2 d")
        case (Inl e)
        with r GetResponse ok show ?thesis
          by (auto simp: fetch_remote_def Let_def)
      next
        case ow: (Inr w3)
        have ne2: "\<not> path_exists ?w2 d"
          using ne by (simp add: path_exists_def stat_path_def)
        note f3 = open_write_fields[OF ow]
        let ?w3' = "if (case content_length resp of IntHeader n \<Rightarrow> n | _ \<Rightarrow> 0) > 0
                    then emit (ProgressBar (nat (case content_length resp of IntHeader n \<Rightarrow> n | _ \<Rightarrow> 0))) w3
                    else w3"
        let ?w4 = "write_nonempty d (chunks resp) ?w3'"
        have k3: "nodes ?w3' (abs_key (cwd ?w3') d) = Some (File [])" using f3 by simp
        have n4: "nodes ?w4 = (nodes w3)(abs_key (cwd ?w2) d \<mapsto> File (concat (chunks resp)))"
          using write_nonempty_nodes[OF k3, of "chunks resp"] f3 by simp
        have c4: "cwd ?w4 = cwd ?w2" using f3 by simp
        have ex4: "nodes ?w2 \<subseteq>\<^sub>m nodes ?w4 \<and> path_exists ?w4 d"
          using opened_and_written[OF ow ne2 n4 c4] .
        have w': "w' = (case ending resp of Complete \<Rightarrow> ?w4 | Broken \<Rightarrow> emit ?err ?w4)"
          using r GetResponse ok ow
          by (auto simp: fetch_remote_def Let_def split: stream_end.splits)
        have "path_exists w' d = path_exists ?w4 d"
          by (auto simp: w' path_exists_def stat_path_def split: stream_end.splits)
        with ex4 show ?thesis by simp
      qed
    qed
  qed
qed

lemma download_file_opened:
  assumes r: "download_file X u d w = (Inr (), w')"
    and o: "OpenWrite d \<in> set (new_events w w')"
  shows "path_exists w' d"
proof (cases "path_exists w d")
  case True
  with r show ?thesis by (auto simp: download_file_def)
next
  case False
  show ?thesis
  proof (cases "startswith u ''file://''")
    case True
    with r False have "fetch_local u d w = (Inr (), w')" by (simp add: download_file_def)
    from fetch_local_frame[OF False this] show ?thesis by simp
  next
    case nf: False
    with r False have "fetch_remote X u d w = (Inr (), w')" by (simp add: download_file_def)
    from fetch_remote_opened[OF False this o] show ?thesis .
  qed
qed

lemma ex_broken_fetch:
  "fst (download_file (ex_ext doc ex_broken) ''http://h/a'' ex_dest ex_world) = Inr ()
   \<and> trace (snd (download_file (ex_ext doc ex_broken) ''http://h/a'' ex_dest ex_world))
       = [HttpGet ''http://h/a'', OpenWrite ex_dest, Print ''Error downloading the file:'']
   \<and> nodes (snd (download_file (ex_ext doc ex_broken) ''http://h/a'' ex_dest ex_world))
        [''w'', ''x.gguf''] = Some (File ''ab'')"
  by (simp add: ex_broken_def ex_world_def ex_ext_def ex_dest_def model_defs)

lemma ex_env_load:
  "load_and_validate_models (ex_ext ex_manifest a) (os_path_join (cwd ex_world_env) ''models.json'')
     ex_world_env
     = (Inr ex_manifest, emit (LogInfo ''Models validated.'') ex_world_env)"
  by (simp add: ex_world_env_def ex_defs model_defs)

lemma ex_env_files:
  "nodes (snd (download_model_files (ex_ext ex_manifest a) (GGUFModel ex_q)
         (emit (LogInfo ''Models validated.'') ex_world_env))) [''w'', ''m'', ''gguf'', ''q'', ''q.gguf'']
       = Some (File ''abc'')"
  by (simp add: ex_world_env_def ex_q_def ex_defs model_defs read_chunks.simps)

lemma ex_env_run:
  "download_models (ex_ext ex_manifest a) ''models.json'' md ow ex_world_env
     = download_model_files (ex_ext ex_manifest a) (GGUFModel ex_q)
         (emit (LogInfo ''Models validated.'') ex_world_env)"
  by (rule single_entry_run[OF ex_env_load[unfolded ex_manifest_def[THEN arg_cong[where f = Inr], THEN arg_cong[where f="\<lambda>x. (x, emit (LogInfo ''Models validated.'') ex_world_env)"]]] _ ex_parse]) simp

section \<open>The validator's report\<close>

lemma errors_of_GGUF:
  "errors_of (parse_GGUFModelsConfig (JDict fs))
     = fst (field_str fs ''name'') @ fst (field_str fs ''description'')
       @ fst (field_kwargs fs ''runtime_kwargs'') @ fst (field_model_type GGUF fs ''model_type'')
       @ fst (field_str fs ''url'') @ fst (field_opt_str fs ''mmproj'')"
  by (simp add: parse_GGUFModelsConfig_def errors_of_def split_def Let_def)

lemma errors_of_Safetensors:
  "errors_of (parse_SafetensorsModelsConfig (JDict fs))
     = fst (field_str fs ''name'') @ fst (field_str fs ''description'')
       @ fst (field_kwargs fs ''runtime_kwargs'')
       @ fst (field_model_type SAFETENSORS fs ''model_type'')"
  by (simp add: parse_SafetensorsModelsConfig_def errors_of_def split_def Let_def)

lemma errors_of_not_object:
  "\<not> is_JDict x \<Longrightarrow> errors_of (parse_GGUFModelsConfig x) = [([], ModelAttributesType)]"
  "\<not> is_JDict x \<Longrightarrow> errors_of (parse_SafetensorsModelsConfig x) = [([], ModelAttributesType)]"
  by (cases x; simp add: parse_GGUFModelsConfig_def parse_SafetensorsModelsConfig_def
      errors_of_def is_JDict_def)+

lemma field_str_reports:
  "map_of fs f = None \<Longrightarrow> ([Key f], Missing) \<in> set (fst (field_str fs f))"
  "map_of fs f = Some v \<Longrightarrow> \<not> is_JStr v \<Longrightarrow> ([Key f], StringType) \<in> set (fst (field_str fs f))"
  by (cases v; simp add: field_str_def is_JStr_def)+

lemma field_opt_str_reports:
  "map_of fs f = Some v \<Longrightarrow> v \<noteq> JNull \<Longrightarrow> \<not> is_JStr v \<Longrightarrow>
   ([Key f], StringType) \<in> set (fst (field_opt_str fs f))"
  by (cases v; simp add: field_opt_str_def is_JStr_def)

lemma field_model_type_reports:
  "map_of fs f = Some v \<Longrightarrow> v \<noteq> JStr ''gguf'' \<Longrightarrow> v \<noteq> JStr ''safetensors'' \<Longrightarrow>
   ([Key f], EnumError) \<in> set (fst (field_model_type dflt fs f))"
  by (cases v; simp add: field_model_type_def)

lemma field_kwargs_reports:
  "map_of fs f = Some v \<Longrightarrow> \<not> is_JDict v \<Longrightarrow> ([Key f], DictType) \<in> set (fst (field_kwargs fs f))"
  "map_of fs f = Some (JDict d) \<Longrightarrow> (k, v') \<in> set d \<Longrightarrow> \<not> is_JStr v' \<Longrightarrow>
   ([Key f, Key k], StringType) \<in> set (fst (field_kwargs fs f))"
  by (cases v; force simp: field_kwargs_def is_JDict_def)+

lemma field_list_item:
  assumes "map_of kvs f = Some (JList xs)" and "i < length xs"
    and "(loc, t) \<in> set (item_errors (xs ! i))"
  shows "(Key f # Idx i # loc, t) \<in> set (field_list item_errors kvs f)"
proof -
  have "(i, xs ! i) \<in> set (enumerate 0 xs)"
    using assms(2) by (simp add: in_set_enumerate_eq)
  with assms(1,3) show ?thesis
    by (force simp: field_list_def)
qed

lemma field_list_empty:
  assumes "map_of kvs f = Some (JList xs)"
  shows "(field_list item_errors kvs f = []) = (\<forall>x\<in>set xs. item_errors x = [])"
proof -
  have "snd ` set (enumerate 0 xs) = set xs"
    by (metis map_snd_enumerate set_map)
  moreover have "(\<forall>p\<in>set (enumerate 0 xs). item_errors (snd p) = [])
                 = (\<forall>x\<in>snd ` set (enumerate 0 xs). item_errors x = [])"
    by auto
  ultimately have "(\<forall>p\<in>set (enumerate 0 xs). item_errors (snd p) = [])
                 = (\<forall>x\<in>set xs. item_errors x = [])"
    by simp
  with assms show ?thesis
    by (auto simp: field_list_def split_def)
qed

text \<open>An error of the \<open>i\<close>-th entry of a collection is in the report of the manifest.\<close>

lemma entry_error_reported:
  assumes "c \<in> set collections" and "map_of kvs c = Some (JList xs)" and "i < length xs"
    and "(loc, t) \<in> set (entry_errors c (xs ! i))"
  shows "(Key c # Idx i # loc, t) \<in> set (validate_ModelsConfig kvs)"
proof (cases "c = ''ggufs''")
  case True
  with assms field_list_item [of kvs "''ggufs''" xs i loc t "\<lambda>x. errors_of (parse_GGUFModelsConfig x)"]
  show ?thesis by (simp add: validate_ModelsConfig_def entry_errors_def)
next
  case False
  with assms have c: "c = ''safetensors''" by (simp add: collections_def)
  with assms field_list_item [of kvs "''safetensors''" xs i loc t
      "\<lambda>x. errors_of (parse_SafetensorsModelsConfig x)"]
  show ?thesis by (simp add: validate_ModelsConfig_def entry_errors_def)
qed

lemma entry_at_reported:
  assumes "entry_at kvs c i fs" and "(loc, t) \<in> set (entry_errors c (JDict fs))"
  shows "(Key c # Idx i # loc, t) \<in> set (validate_ModelsConfig kvs)"
proof -
  from assms(1) obtain xs where "c \<in> set collections" "map_of kvs c = Some (JList xs)"
    "i < length xs" "xs ! i = JDict fs"
    by (auto simp: entry_at_def split: option.splits json.splits)
  with assms(2) entry_error_reported [of c kvs xs i loc t] show ?thesis by simp
qed

lemma collection_reported:
  assumes "c \<in> set collections"
  shows "map_of kvs c = None \<Longrightarrow> ([Key c], Missing) \<in> set (validate_ModelsConfig kvs)"
    and "map_of kvs c = Some v \<Longrightarrow> \<not> is_JList v \<Longrightarrow> ([Key c], ListType) \<in> set (validate_ModelsConfig kvs)"
  using assms
  by (cases v; auto simp: collections_def validate_ModelsConfig_def field_list_def is_JList_def)+

lemma spec_violation_reported:
  assumes "spec_violation kvs e"
  shows "e \<in> set (validate_ModelsConfig kvs)"
  using assms
proof (cases rule: spec_violation.cases)
  case (collection_missing c)
  then show ?thesis by (simp add: collection_reported)
next
  case (collection_not_list c v)
  then show ?thesis by (simp add: collection_reported)
next
  case (entry_not_object c xs i)
  then have "([], ModelAttributesType) \<in> set (entry_errors c (xs ! i))"
    by (simp add: entry_errors_def errors_of_not_object)
  with entry_not_object entry_error_reported [of c kvs xs i "[]" ModelAttributesType]
  show ?thesis by simp
next
  case (field_missing c i fs f)
  then have "([Key f], Missing) \<in> set (entry_errors c (JDict fs))"
    by (auto simp: entry_errors_def errors_of_GGUF errors_of_Safetensors required_fields_def
        field_str_reports split: if_splits)
  with field_missing entry_at_reported [of kvs c i fs "[Key f]" Missing] show ?thesis by simp
next
  case (field_not_string c i fs f v)
  then have "([Key f], StringType) \<in> set (entry_errors c (JDict fs))"
    by (auto simp: entry_errors_def errors_of_GGUF errors_of_Safetensors required_fields_def
        field_str_reports split: if_splits)
  with field_not_string entry_at_reported [of kvs c i fs "[Key f]" StringType] show ?thesis by simp
next
  case (projector_not_string i fs v)
  then have "([Key ''mmproj''], StringType) \<in> set (entry_errors ''ggufs'' (JDict fs))"
    by (simp add: entry_errors_def errors_of_GGUF field_opt_str_reports)
  with projector_not_string entry_at_reported [of kvs "''ggufs''" i fs "[Key ''mmproj'']" StringType]
  show ?thesis by simp
next
  case (model_type_unknown c i fs v)
  then have "([Key ''model_type''], EnumError) \<in> set (entry_errors c (JDict fs))"
    by (simp add: entry_errors_def errors_of_GGUF errors_of_Safetensors field_model_type_reports)
  with model_type_unknown entry_at_reported [of kvs c i fs "[Key ''model_type'']" EnumError]
  show ?thesis by simp
next
  case (kwargs_not_dict c i fs v)
  then have "([Key ''runtime_kwargs''], DictType) \<in> set (entry_errors c (JDict fs))"
    by (simp add: entry_errors_def errors_of_GGUF errors_of_Safetensors field_kwargs_reports)
  with kwargs_not_dict entry_at_reported [of kvs c i fs "[Key ''runtime_kwargs'']" DictType]
  show ?thesis by simp
next
  case (kwargs_value_not_string c i fs d k v)
  then have "([Key ''runtime_kwargs'', Key k], StringType) \<in> set (entry_errors c (JDict fs))"
    by (simp add: entry_errors_def errors_of_GGUF errors_of_Safetensors field_kwargs_reports)
  with kwargs_value_not_string
    entry_at_reported [of kvs c i fs "[Key ''runtime_kwargs'', Key k]" StringType]
  show ?thesis by simp
qed

section \<open>The claims\<close>

text \<open>
  C1, as the code has it. \<open>download_model_files\<close> on a tensor-weights entry resolves the
  directory \<open>models root / model_type\<close>, creates it and raises \<open>NotImplementedError\<close> (when
  the directory cannot be created, the error of \<open>mkdir\<close> is raised instead). But the loop
  of \<open>download_models\<close> runs over the \<open>ggufs\<close> collection only: no tensor-weights entry
  ever reaches \<open>download_model_files\<close>, and no run of \<open>download_models\<close> ends with
  \<open>NotImplementedError\<close>. For a manifest with one quantized entry, whatever its
  tensor-weights entries, the run is the download of that entry and ends as it ends.
\<close>

theorem safetensors_never_reached:
  "fst (download_models X models_file models_dir overwrite w) \<noteq> Inl NotImplementedError
   \<and> (case mkdir_parents w (safetensors_model_directory w m) of
        Inl e \<Rightarrow> download_model_files X (SafetensorsModel m) w = (Inl e, w)
      | Inr w1 \<Rightarrow>
          download_model_files X (SafetensorsModel m) w = (Inl NotImplementedError, w1)
          \<and> stat_path w1 (safetensors_model_directory w m) = Found Dir)
   \<and> (load_and_validate_models X (os_path_join (cwd w) models_file) w = (Inr (JDict kvs), w0)
        \<and> map_of kvs ''ggufs'' = Some (JList [JDict fs])
        \<and> parse_GGUFModelsConfig (JDict fs) = Inr g
      \<longrightarrow> download_models X models_file models_dir overwrite w
            = download_model_files X (GGUFModel g) w0)"
proof -
  obtain r w' where run: "download_models X models_file models_dir overwrite w = (r, w')"
    by (cases "download_models X models_file models_dir overwrite w")
  from download_models_frame[OF run] have "r \<noteq> Inl NotImplementedError" by simp
  then have never: "fst (download_models X models_file models_dir overwrite w)
                      \<noteq> Inl NotImplementedError"
    by (simp add: run)
  have branch: "case mkdir_parents w (safetensors_model_directory w m) of
        Inl e \<Rightarrow> download_model_files X (SafetensorsModel m) w = (Inl e, w)
      | Inr w1 \<Rightarrow>
          download_model_files X (SafetensorsModel m) w = (Inl NotImplementedError, w1)
          \<and> stat_path w1 (safetensors_model_directory w m) = Found Dir"
    using mkdir_parents_dir[of w "safetensors_model_directory w m"]
    by (auto simp: Let_def split: sum.splits)
  have single: "load_and_validate_models X (os_path_join (cwd w) models_file) w
                  = (Inr (JDict kvs), w0)
        \<and> map_of kvs ''ggufs'' = Some (JList [JDict fs])
        \<and> parse_GGUFModelsConfig (JDict fs) = Inr g
      \<longrightarrow> download_models X models_file models_dir overwrite w
            = download_model_files X (GGUFModel g) w0"
    using single_entry_run [of X w models_file kvs w0 fs g models_dir overwrite] by blast
  from never branch single show ?thesis by blast
qed

theorem safetensors_never_reached_witness:
  "fst (download_models (ex_ext ex_manifest GetRaises) ''models.json'' ''models'' False ex_world)
     \<noteq> Inl NotImplementedError
   \<and> fst (download_model_files (ex_ext ex_manifest GetRaises) (SafetensorsModel ex_st) ex_world)
     = Inl NotImplementedError
   \<and> stat_path (snd (download_model_files (ex_ext ex_manifest GetRaises) (SafetensorsModel ex_st)
                      ex_world)) (Path ''/'' [''w'', ''models'', ''safetensors'']) = Found Dir
   \<and> download_models (ex_ext ex_manifest GetRaises) ''models.json'' ''models'' False ex_world
     = download_model_files (ex_ext ex_manifest GetRaises) (GGUFModel ex_q)
         (emit (LogInfo ''Models validated.'') ex_world)"
proof -
  let ?X = "ex_ext ex_manifest GetRaises"
  let ?fs = "[(''name'', JStr ''q''), (''description'', JStr ''d''), (''url'', JStr ''file:///w/f'')]"
  let ?kvs = "[(''ggufs'', JList [JDict ?fs]),
               (''safetensors'', JList [JDict [(''name'', JStr ''t''), (''description'', JStr ''d'')]])]"
  have d: "safetensors_model_directory ex_world ex_st = Path ''/'' [''w'', ''models'', ''safetensors'']"
    by (simp add: ex_defs model_defs)
  have "\<exists>w1. mkdir_parents ex_world (Path ''/'' [''w'', ''models'', ''safetensors'']) = Inr w1"
    by (simp add: ex_defs model_defs)
  then obtain w1 where mk: "mkdir_parents ex_world (Path ''/'' [''w'', ''models'', ''safetensors'']) = Inr w1"
    by blast
  have l: "load_and_validate_models ?X (os_path_join (cwd ex_world) ''models.json'') ex_world
             = (Inr (JDict ?kvs), emit (LogInfo ''Models validated.'') ex_world)"
    using ex_load [of GetRaises] by (simp add: ex_manifest_def)
  have g: "map_of ?kvs ''ggufs'' = Some (JList [JDict ?fs])" by simp
  note t = safetensors_never_reached [of ?X "''models.json''" "''models''" False ex_world ex_st
      ?kvs "emit (LogInfo ''Models validated.'') ex_world" ?fs ex_q]
  from t l g ex_parse
  have "download_models ?X ''models.json'' ''models'' False ex_world
     = download_model_files ?X (GGUFModel ex_q) (emit (LogInfo ''Models validated.'') ex_world)"
    by blast
  moreover from t
  have "fst (download_models ?X ''models.json'' ''models'' False ex_world) \<noteq> Inl NotImplementedError"
    and "fst (download_model_files ?X (SafetensorsModel ex_st) ex_world) = Inl NotImplementedError
         \<and> stat_path (snd (download_model_files ?X (SafetensorsModel ex_st) ex_world))
              (Path ''/'' [''w'', ''models'', ''safetensors'']) = Found Dir"
    by (simp_all add: d mk)
  ultimately show ?thesis by blast
qed

text \<open>
  Against C1 as stated, the run it describes: one quantized entry with a local fixture,
  one tensor-weights entry. The quantized artifact is copied, the run returns normally, and
  no directory for the tensor-weights family is created.
\<close>

theorem family_gating_counterexample:
  "fst (download_models (ex_ext ex_manifest GetRaises) ''models.json'' ''models'' False ex_world)
     = Inr ()
   \<and> nodes (snd (download_models (ex_ext ex_manifest GetRaises) ''models.json'' ''models'' False
                   ex_world)) [''w'', ''models'', ''gguf'', ''q'', ''q.gguf''] = Some (File ''abc'')
   \<and> nodes (snd (download_models (ex_ext ex_manifest GetRaises) ''models.json'' ''models'' False
                   ex_world)) [''w'', ''models'', ''safetensors''] = None"
  using ex_files [of GetRaises] by (simp add: ex_run)

text \<open>
  C2. When the destination exists, \<open>_download_file\<close> only logs that it skips: no request,
  no file opened, no file changed, and it returns normally. For two calls with the same
  locator and destination, after a first call that succeeded (it returned without
  printing a request error), and also after a first call that opened the destination and
  then lost the stream: the destination exists, so the second call is that no-op, performs
  no transfer and leaves every file with the content the first call left.
\<close>

theorem fetch_idempotent_after_success:
  "(path_exists w d
      \<longrightarrow> download_file X u d w
            = (Inr (), emit (LogInfo ''File already exists, skipping download.'') w))
   \<and> (download_file X u d w = (Inr (), w1)
        \<and> Print ''Error downloading the file:'' \<notin> set (new_events w w1)
      \<longrightarrow> download_file X u d w1
            = (Inr (), emit (LogInfo ''File already exists, skipping download.'') w1))
   \<and> (download_file X u d w = (Inr (), w1) \<and> OpenWrite d \<in> set (new_events w w1)
      \<longrightarrow> download_file X u d w1
            = (Inr (), emit (LogInfo ''File already exists, skipping download.'') w1))"
proof -
  have skip: "path_exists w' d
      \<longrightarrow> download_file X u d w'
            = (Inr (), emit (LogInfo ''File already exists, skipping download.'') w')" for w'
    by (simp add: download_file_def)
  have "download_file X u d w = (Inr (), w1)
        \<and> Print ''Error downloading the file:'' \<notin> set (new_events w w1) \<longrightarrow> path_exists w1 d"
    using download_file_frame [of X u d w "Inr ()" w1] by blast
  moreover have "download_file X u d w = (Inr (), w1) \<and> OpenWrite d \<in> set (new_events w w1)
        \<longrightarrow> path_exists w1 d"
    using download_file_opened [of X u d w w1] by blast
  ultimately show ?thesis using skip [of w] skip [of w1] by blast
qed

theorem fetch_idempotent_after_success_witness:
  "download_file (ex_ext ex_manifest GetRaises) ''file:///w/f'' ex_dest
     (snd (download_file (ex_ext ex_manifest GetRaises) ''file:///w/f'' ex_dest ex_world))
   = (Inr (), emit (LogInfo ''File already exists, skipping download.'')
               (snd (download_file (ex_ext ex_manifest GetRaises) ''file:///w/f'' ex_dest ex_world)))
   \<and> download_file (ex_ext ex_manifest ex_broken) ''http://h/a'' ex_dest
     (snd (download_file (ex_ext ex_manifest ex_broken) ''http://h/a'' ex_dest ex_world))
   = (Inr (), emit (LogInfo ''File already exists, skipping download.'')
               (snd (download_file (ex_ext ex_manifest ex_broken) ''http://h/a'' ex_dest ex_world)))"
proof -
  let ?X = "ex_ext ex_manifest GetRaises"
  let ?w1 = "snd (download_file ?X ''file:///w/f'' ex_dest ex_world)"
  let ?Y = "ex_ext ex_manifest ex_broken"
  let ?v1 = "snd (download_file ?Y ''http://h/a'' ex_dest ex_world)"
  have h1: "download_file ?X ''file:///w/f'' ex_dest ex_world = (Inr (), ?w1)"
    using ex_local_fetch [of ?X] by (simp add: prod_eq_iff)
  have h2: "Print ''Error downloading the file:'' \<notin> set (new_events ex_world ?w1)"
    using ex_local_fetch [of ?X] by (simp add: new_events_def ex_world_def)
  have g1: "download_file ?Y ''http://h/a'' ex_dest ex_world = (Inr (), ?v1)"
    using ex_broken_fetch [of ex_manifest] by (simp add: prod_eq_iff)
  have g2: "OpenWrite ex_dest \<in> set (new_events ex_world ?v1)"
    using ex_broken_fetch [of ex_manifest] by (simp add: new_events_def ex_world_def)
  show ?thesis
    using fetch_idempotent_after_success [of ex_world ex_dest ?X "''file:///w/f''" ?w1] h1 h2
      fetch_idempotent_after_success [of ex_world ex_dest ?Y "''http://h/a''" ?v1] g1 g2
    by blast
qed

text \<open>
  C3, as the code has it. The validator has no rule about names beyond their being
  strings: a manifest whose two collections are lists passes validation exactly when
  every entry passes on its own, the outcome for an entry does not depend on which string
  its name is, and a manifest all of whose entries pass is returned by
  \<open>_load_and_validate_models\<close>, also when two entries share a name.
\<close>

theorem validation_ignores_names:
  assumes "map_of kvs ''ggufs'' = Some (JList gs)"
    and "map_of kvs ''safetensors'' = Some (JList ss)"
  shows "(validate_ModelsConfig kvs = [])
           = ((\<forall>g\<in>set gs. errors_of (parse_GGUFModelsConfig g) = [])
              \<and> (\<forall>s\<in>set ss. errors_of (parse_SafetensorsModelsConfig s) = []))
       \<and> errors_of (parse_GGUFModelsConfig (JDict ((''name'', JStr n) # fs)))
           = errors_of (parse_GGUFModelsConfig (JDict ((''name'', JStr n') # fs)))
       \<and> errors_of (parse_SafetensorsModelsConfig (JDict ((''name'', JStr n) # fs)))
           = errors_of (parse_SafetensorsModelsConfig (JDict ((''name'', JStr n') # fs)))
       \<and> (open_read w p = Inr content \<and> json_loads X content = Some (JDict kvs)
            \<and> (\<forall>g\<in>set gs. errors_of (parse_GGUFModelsConfig g) = [])
            \<and> (\<forall>s\<in>set ss. errors_of (parse_SafetensorsModelsConfig s) = [])
           \<longrightarrow> load_and_validate_models X p w
                 = (Inr (JDict kvs), emit (LogInfo ''Models validated.'') w))"
proof -
  have a: "(validate_ModelsConfig kvs = [])
           = ((\<forall>g\<in>set gs. errors_of (parse_GGUFModelsConfig g) = [])
              \<and> (\<forall>s\<in>set ss. errors_of (parse_SafetensorsModelsConfig s) = []))"
    using assms by (simp add: validate_ModelsConfig_def field_list_empty)
  have b: "errors_of (parse_GGUFModelsConfig (JDict ((''name'', JStr n) # fs)))
           = errors_of (parse_GGUFModelsConfig (JDict ((''name'', JStr n') # fs)))"
    by (simp add: errors_of_GGUF field_str_def field_kwargs_def field_model_type_def
        field_opt_str_def)
  have c: "errors_of (parse_SafetensorsModelsConfig (JDict ((''name'', JStr n) # fs)))
           = errors_of (parse_SafetensorsModelsConfig (JDict ((''name'', JStr n') # fs)))"
    by (simp add: errors_of_Safetensors field_str_def field_kwargs_def field_model_type_def)
  have d: "open_read w p = Inr content \<and> json_loads X content = Some (JDict kvs)
            \<and> (\<forall>g\<in>set gs. errors_of (parse_GGUFModelsConfig g) = [])
            \<and> (\<forall>s\<in>set ss. errors_of (parse_SafetensorsModelsConfig s) = [])
           \<longrightarrow> load_and_validate_models X p w
                 = (Inr (JDict kvs), emit (LogInfo ''Models validated.'') w)"
    using a by (auto simp: load_and_validate_models_def)
  from a b c d show ?thesis by blast
qed

theorem validation_ignores_names_witness:
  "validate_ModelsConfig ex_dup_same = []
   \<and> load_and_validate_models (ex_ext (JDict ex_dup_same) GetRaises) ''/w/models.json'' ex_world
       = (Inr (JDict ex_dup_same), emit (LogInfo ''Models validated.'') ex_world)"
proof -
  let ?gs = "[JDict [(''name'', JStr ''q''), (''description'', JStr ''d''), (''url'', JStr ''u'')],
              JDict [(''name'', JStr ''q''), (''description'', JStr ''e''), (''url'', JStr ''v'')]]"
  have g: "map_of ex_dup_same ''ggufs'' = Some (JList ?gs)"
    and s: "map_of ex_dup_same ''safetensors'' = Some (JList [])"
    by (simp_all add: ex_dup_same_def)
  have ok: "\<forall>g\<in>set ?gs. errors_of (parse_GGUFModelsConfig g) = []"
    by (simp add: model_defs)
  have rd: "open_read ex_world ''/w/models.json'' = Inr ''M''"
    by (simp add: ex_world_def model_defs)
  have js: "json_loads (ex_ext (JDict ex_dup_same) GetRaises) ''M'' = Some (JDict ex_dup_same)"
    by (simp add: ex_ext_def)
  show ?thesis
    using validation_ignores_names [OF g s, where w = ex_world and p = "''/w/models.json''"
        and content = "''M''" and X = "ex_ext (JDict ex_dup_same) GetRaises"] ok rd js
    by simp
qed

text \<open>
  Against C3 as stated: two entries named \<open>q\<close>, in one collection or across the two,
  and validation succeeds and returns the document.
\<close>

theorem duplicate_names_counterexample:
  "fst (load_and_validate_models (ex_ext (JDict ex_dup_same) GetRaises) ''/w/models.json'' ex_world)
     = Inr (JDict ex_dup_same)
   \<and> fst (load_and_validate_models (ex_ext (JDict ex_dup_cross) GetRaises) ''/w/models.json'' ex_world)
     = Inr (JDict ex_dup_cross)"
proof -
  have v: "validate_ModelsConfig ex_dup_same = []" "validate_ModelsConfig ex_dup_cross = []"
    by (simp_all add: ex_dup_same_def ex_dup_cross_def model_defs)
  have "open_read ex_world ''/w/models.json'' = Inr ''M''"
    by (simp add: ex_world_def model_defs)
  then show ?thesis
    by (simp add: v load_and_validate_models_def ex_ext_def)
qed

text \<open>
  C4, as the code has it. A \<open>RequestException\<close> is caught inside \<open>_download_file\<close> and
  does not propagate: the \<open>except\<close> clause prints it and the function returns \<open>None\<close>, as
  it does after a complete transfer. This holds when the request itself raises (nothing is
  written), when the status is an error status, and when the stream breaks after the
  destination was opened (the last thing the call does is print). The caller gets no
  error value.
\<close>

theorem request_failure_caught:
  assumes "\<not> path_exists w d" and "\<not> startswith u ''file://''"
  shows "(requests_get X (requests_made w) u = GetRaises
           \<longrightarrow> download_file X u d w
                 = (Inr (), emit (Print ''Error downloading the file:'')
                              ((emit (HttpGet u) w)\<lparr>requests_made := Suc (requests_made w)\<rparr>)))
       \<and> (requests_get X (requests_made w) u = GetResponse resp
            \<and> 400 \<le> status_code resp \<and> status_code resp < 600
           \<longrightarrow> download_file X u d w
                 = (Inr (), emit (Print ''Error downloading the file:'')
                              ((emit (HttpGet u) w)\<lparr>requests_made := Suc (requests_made w)\<rparr>)))
       \<and> (requests_get X (requests_made w) u = GetResponse resp
            \<and> \<not> (400 \<le> status_code resp \<and> status_code resp < 600)
            \<and> content_length resp \<noteq> BadHeader \<and> ending resp = Broken
            \<and> open_write w d = Inr w3
           \<longrightarrow> fst (download_file X u d w) = Inr ()
               \<and> last (trace (snd (download_file X u d w))) = Print ''Error downloading the file:'')"
proof -
  have a: "requests_get X (requests_made w) u = GetRaises
           \<longrightarrow> download_file X u d w
                 = (Inr (), emit (Print ''Error downloading the file:'')
                              ((emit (HttpGet u) w)\<lparr>requests_made := Suc (requests_made w)\<rparr>))"
    using assms by (simp add: download_file_get_raises)
  have b: "requests_get X (requests_made w) u = GetResponse resp
            \<and> 400 \<le> status_code resp \<and> status_code resp < 600
           \<longrightarrow> download_file X u d w
                 = (Inr (), emit (Print ''Error downloading the file:'')
                              ((emit (HttpGet u) w)\<lparr>requests_made := Suc (requests_made w)\<rparr>))"
    using assms by (simp add: download_file_def fetch_remote_def Let_def)
  have c: "requests_get X (requests_made w) u = GetResponse resp
            \<and> \<not> (400 \<le> status_code resp \<and> status_code resp < 600)
            \<and> content_length resp \<noteq> BadHeader \<and> ending resp = Broken
            \<and> open_write w d = Inr w3
           \<longrightarrow> fst (download_file X u d w) = Inr ()
               \<and> last (trace (snd (download_file X u d w))) = Print ''Error downloading the file:''"
  proof (intro impI, elim conjE)
    assume g: "requests_get X (requests_made w) u = GetResponse resp"
      and s: "\<not> (400 \<le> status_code resp \<and> status_code resp < 600)"
      and h: "content_length resp \<noteq> BadHeader" and e: "ending resp = Broken"
      and o: "open_write w d = Inr w3"
    have "open_write (emit (OpenWrite d) ((emit (HttpGet u) w)\<lparr>requests_made := Suc (requests_made w)\<rparr>)) d
          = Inr (w3\<lparr>requests_made := Suc (requests_made w), trace := trace w @ [HttpGet u, OpenWrite d]\<rparr>)"
      using open_write_counters [OF o, where n = "Suc (requests_made w)"
          and t = "trace w @ [HttpGet u, OpenWrite d]"]
      by (simp add: emit_def)
    with assms g s h e
    show "fst (download_file X u d w) = Inr ()
          \<and> last (trace (snd (download_file X u d w))) = Print ''Error downloading the file:''"
      by (simp add: download_file_def fetch_remote_def Let_def)
  qed
  from a b c show ?thesis by blast
qed

theorem request_failure_caught_witness:
  "download_file (ex_ext ex_manifest GetRaises) ''http://h/a'' ex_dest ex_world
     = (Inr (), emit (Print ''Error downloading the file:'')
                  ((emit (HttpGet ''http://h/a'') ex_world)
                     \<lparr>requests_made := Suc (requests_made ex_world)\<rparr>))"
proof -
  have nf: "\<not> startswith ''http://h/a'' ''file://''" by (simp add: startswith_def)
  have g: "requests_get (ex_ext ex_manifest GetRaises) (requests_made ex_world) ''http://h/a''
             = GetRaises"
    by (simp add: ex_ext_def)
  show ?thesis
    using request_failure_caught [OF ex_dest_absent nf, of "ex_ext ex_manifest GetRaises"] g
    by blast
qed

text \<open>
  Against C4 as stated, what the caller sees: on a network that refuses the request and on a network that
  delivers the file, \<open>_download_file\<close> returns the same value, a normal return of \<open>None\<close>.
\<close>

theorem transport_failure_counterexample:
  "fst (download_file (ex_ext ex_manifest GetRaises) ''http://h/a'' ex_dest ex_world) = Inr ()
   \<and> fst (download_file (ex_ext ex_manifest ex_ok) ''http://h/a'' ex_dest ex_world) = Inr ()
   \<and> nodes (snd (download_file (ex_ext ex_manifest GetRaises) ''http://h/a'' ex_dest ex_world))
        [''w'', ''x.gguf''] = None
   \<and> nodes (snd (download_file (ex_ext ex_manifest ex_ok) ''http://h/a'' ex_dest ex_world))
        [''w'', ''x.gguf''] = Some (File ''abc'')"
  by (simp add: ex_defs model_defs)

text \<open>
  C5. A \<open>file://\<close> locator whose local path (the locator without \<open>file://\<close>) does not
  exist: \<open>_download_file\<close> changes no file, so nothing is created at the destination, and,
  when the destination is not already there, it raises the error of \<open>open\<close> on the missing
  source: \<open>FileNotFoundError\<close> when nothing is at that path, \<open>NotADirectoryError\<close> when the
  path runs through a regular file.
\<close>

theorem missing_local_source:
  assumes "startswith u ''file://''" and "\<not> os_path_exists w (str_replace ''file://'' [] u)"
  shows "nodes (snd (download_file X u d w)) = nodes w
       \<and> (\<not> path_exists w d
            \<longrightarrow> (fst (download_file X u d w) = Inl FileNotFoundError
                  \<or> fst (download_file X u d w) = Inl NotADirectoryError)
              \<and> (stat_str w (str_replace ''file://'' [] u) = ENOENT
                   \<longrightarrow> fst (download_file X u d w) = Inl FileNotFoundError))"
  using assms
  by (auto simp: download_file_def fetch_local_def Let_def os_path_exists_def open_read_def
      split: stat.splits node.splits)

theorem missing_local_source_witness:
  "nodes (snd (download_file (ex_ext ex_manifest GetRaises) ''file:///w/nope'' ex_dest ex_world))
     = nodes ex_world
   \<and> fst (download_file (ex_ext ex_manifest GetRaises) ''file:///w/nope'' ex_dest ex_world)
     = Inl FileNotFoundError"
proof -
  have s: "startswith ''file:///w/nope'' ''file://''" by (simp add: startswith_def)
  have st: "stat_str ex_world (str_replace ''file://'' [] ''file:///w/nope'') = ENOENT"
    by (simp add: ex_defs model_defs)
  then have ne: "\<not> os_path_exists ex_world (str_replace ''file://'' [] ''file:///w/nope'')"
    by (simp add: os_path_exists_def)
  show ?thesis
    using missing_local_source [OF s ne, of "ex_ext ex_manifest GetRaises" ex_dest]
      ex_dest_absent st
    by blast
qed

text \<open>
  C6. The paths are functions of the models root and the entry, so the same root and
  entry always give the same paths. For a quantized entry the directory is
  \<open>models root / model_type / name\<close>, the primary file name is \<open>name.gguf\<close> and the
  projector's file name is \<open>mmproj_name.gguf\<close>; for a tensor-weights entry the directory is
  \<open>models root / model_type\<close>, with no component for the name. \<open>/\<close> is the join of
  \<open>pathlib\<close>; for a name that is one path component (not empty, not \<open>.\<close>, no slash) the
  joined paths are the root's components followed by the tag, the name and the file name.
\<close>

theorem path_resolution:
  "gguf_model_directory w m
     = truediv (truediv (get_models_directory w) (Path_of (ModelType_value (model_type m))))
         (Path_of (name m))
   \<and> primary_filename m = name m @ ''.gguf''
   \<and> mmproj_filename m = ''mmproj_'' @ name m @ ''.gguf''
   \<and> safetensors_model_directory w s
     = Path (root (get_models_directory w))
         (segments (get_models_directory w) @ [ModelType_value (st_model_type s)])
   \<and> (name m \<noteq> [] \<and> name m \<noteq> ''.'' \<and> CHR ''/'' \<notin> set (name m)
      \<longrightarrow> gguf_model_directory w m
            = Path (root (get_models_directory w))
                (segments (get_models_directory w) @ [ModelType_value (model_type m), name m])
        \<and> truediv (gguf_model_directory w m) (Path_of (primary_filename m))
            = Path (root (get_models_directory w))
                (segments (get_models_directory w)
                 @ [ModelType_value (model_type m), name m, name m @ ''.gguf''])
        \<and> truediv (gguf_model_directory w m) (Path_of (mmproj_filename m))
            = Path (root (get_models_directory w))
                (segments (get_models_directory w)
                 @ [ModelType_value (model_type m), name m, ''mmproj_'' @ name m @ ''.gguf'']))"
proof -
  have st: "safetensors_model_directory w s
     = Path (root (get_models_directory w))
         (segments (get_models_directory w) @ [ModelType_value (st_model_type s)])"
    by (simp add: safetensors_model_directory_def Path_of_ModelType_value truediv_def)
  have plain: "gguf_model_directory w m
            = Path (root (get_models_directory w))
                (segments (get_models_directory w) @ [ModelType_value (model_type m), name m])
        \<and> truediv (gguf_model_directory w m) (Path_of (primary_filename m))
            = Path (root (get_models_directory w))
                (segments (get_models_directory w)
                 @ [ModelType_value (model_type m), name m, name m @ ''.gguf''])
        \<and> truediv (gguf_model_directory w m) (Path_of (mmproj_filename m))
            = Path (root (get_models_directory w))
                (segments (get_models_directory w)
                 @ [ModelType_value (model_type m), name m, ''mmproj_'' @ name m @ ''.gguf''])"
    if n: "name m \<noteq> []" "name m \<noteq> ''.''" "CHR ''/'' \<notin> set (name m)"
  proof -
    have p1: "Path_of (name m) = Path [] [name m]"
      using n by (rule Path_of_plain)
    have p2: "Path_of (primary_filename m) = Path [] [primary_filename m]"
      unfolding primary_filename_def using n by (intro Path_of_plain) auto
    have p3: "Path_of (mmproj_filename m) = Path [] [mmproj_filename m]"
      unfolding mmproj_filename_def using n by (intro Path_of_plain) auto
    show ?thesis
      unfolding gguf_model_directory_def p1 p2 p3 Path_of_ModelType_value truediv_def
      by (simp add: primary_filename_def mmproj_filename_def)
  qed
  have defs: "gguf_model_directory w m
     = truediv (truediv (get_models_directory w) (Path_of (ModelType_value (model_type m))))
         (Path_of (name m))"
    "primary_filename m = name m @ ''.gguf''"
    "mmproj_filename m = ''mmproj_'' @ name m @ ''.gguf''"
    by (simp_all add: gguf_model_directory_def primary_filename_def mmproj_filename_def)
  from defs st plain show ?thesis by blast
qed

theorem path_resolution_witness:
  "gguf_model_directory ex_world ex_mm = Path ''/'' [''w'', ''models'', ''gguf'', ''q'']
   \<and> truediv (gguf_model_directory ex_world ex_mm) (Path_of (primary_filename ex_mm))
       = Path ''/'' [''w'', ''models'', ''gguf'', ''q'', ''q.gguf'']
   \<and> truediv (gguf_model_directory ex_world ex_mm) (Path_of (mmproj_filename ex_mm))
       = Path ''/'' [''w'', ''models'', ''gguf'', ''q'', ''mmproj_q.gguf'']
   \<and> safetensors_model_directory ex_world ex_st = Path ''/'' [''w'', ''models'', ''safetensors'']"
proof -
  have n: "name ex_mm = ''q''" "model_type ex_mm = GGUF" "st_model_type ex_st = SAFETENSORS"
    by (simp_all add: ex_mm_def ex_st_def)
  have r: "get_models_directory ex_world = Path ''/'' [''w'', ''models'']"
    by (simp add: ex_world_def get_models_directory_def Path_of_def splitroot_def truediv_def)
  have h: "name ex_mm \<noteq> [] \<and> name ex_mm \<noteq> ''.'' \<and> CHR ''/'' \<notin> set (name ex_mm)"
    by (simp add: n)
  from path_resolution [of ex_world ex_mm ex_st] h
  have "gguf_model_directory ex_world ex_mm
            = Path (root (get_models_directory ex_world))
                (segments (get_models_directory ex_world) @ [ModelType_value (model_type ex_mm), name ex_mm])"
    and "truediv (gguf_model_directory ex_world ex_mm) (Path_of (primary_filename ex_mm))
            = Path (root (get_models_directory ex_world))
                (segments (get_models_directory ex_world)
                 @ [ModelType_value (model_type ex_mm), name ex_mm, name ex_mm @ ''.gguf''])"
    and "truediv (gguf_model_directory ex_world ex_mm) (Path_of (mmproj_filename ex_mm))
            = Path (root (get_models_directory ex_world))
                (segments (get_models_directory ex_world)
                 @ [ModelType_value (model_type ex_mm), name ex_mm, ''mmproj_'' @ name ex_mm @ ''.gguf''])"
    and "safetensors_model_directory ex_world ex_st
     = Path (root (get_models_directory ex_world))
         (segments (get_models_directory ex_world) @ [ModelType_value (st_model_type ex_st)])"
    by blast+
  then show ?thesis by (simp add: n r)
qed

text \<open>
  C7, as the code has it. Validation is not fail-fast for the violations of the field
  constraints: every missing collection, collection that is not a list, entry that is not
  an object, missing required field, field of the wrong type and unknown \<open>model_type\<close> is
  in the report, whatever else is wrong, and \<open>_load_and_validate_models\<close> raises the
  \<open>ValidationError\<close> that carries the whole report. A name shared by two entries is not a
  violation the validator knows.
\<close>

theorem field_violations_all_reported:
  assumes "spec_violation kvs e"
  shows "e \<in> set (validate_ModelsConfig kvs)
       \<and> (open_read w p = Inr content \<and> json_loads X content = Some (JDict kvs)
            \<longrightarrow> fst (load_and_validate_models X p w)
                  = Inl (ValidationError (validate_ModelsConfig kvs)))"
proof -
  from assms have r: "e \<in> set (validate_ModelsConfig kvs)"
    by (rule spec_violation_reported)
  then have "validate_ModelsConfig kvs \<noteq> []" by auto
  then have "open_read w p = Inr content \<and> json_loads X content = Some (JDict kvs)
            \<longrightarrow> fst (load_and_validate_models X p w)
                  = Inl (ValidationError (validate_ModelsConfig kvs))"
    by (simp add: load_and_validate_models_def)
  with r show ?thesis by blast
qed

theorem field_violations_all_reported_witness:
  "([Key ''ggufs'', Idx 0, Key ''name''], Missing) \<in> set (validate_ModelsConfig ex_bad)
   \<and> ([Key ''ggufs'', Idx 0, Key ''model_type''], EnumError) \<in> set (validate_ModelsConfig ex_bad)
   \<and> ([Key ''ggufs'', Idx 0, Key ''url''], StringType) \<in> set (validate_ModelsConfig ex_bad)"
proof -
  let ?fs = "[(''description'', JStr ''d''), (''model_type'', JStr ''x''), (''url'', JInt 3)]"
  have e: "entry_at ex_bad ''ggufs'' 0 ?fs"
    by (simp add: entry_at_def ex_bad_def collections_def)
  have v1: "spec_violation ex_bad ([Key ''ggufs'', Idx 0, Key ''name''], Missing)"
    by (rule field_missing [OF e]) (simp_all add: required_fields_def)
  have v2: "spec_violation ex_bad ([Key ''ggufs'', Idx 0, Key ''model_type''], EnumError)"
    by (rule model_type_unknown [OF e, of "JStr ''x''"]) simp_all
  have v3: "spec_violation ex_bad ([Key ''ggufs'', Idx 0, Key ''url''], StringType)"
    by (rule field_not_string [OF e, of "''url''" "JInt 3"])
      (simp_all add: required_fields_def is_JStr_def)
  show ?thesis
    using field_violations_all_reported [OF v1] field_violations_all_reported [OF v2]
      field_violations_all_reported [OF v3]
    by blast
qed

text \<open>
  Against C7 as stated: two violations of the kinds it lists, a missing \<open>url\<close> and a
  name used twice, and the report names one.
\<close>

theorem total_validation_counterexample:
  "validate_ModelsConfig ex_two = [([Key ''ggufs'', Idx 1, Key ''url''], Missing)]
   \<and> fst (load_and_validate_models (ex_ext (JDict ex_two) GetRaises) ''/w/models.json'' ex_world)
       = Inl (ValidationError [([Key ''ggufs'', Idx 1, Key ''url''], Missing)])"
proof -
  have v: "validate_ModelsConfig ex_two = [([Key ''ggufs'', Idx 1, Key ''url''], Missing)]"
    by (simp add: ex_two_def model_defs)
  have "open_read ex_world ''/w/models.json'' = Inr ''M''"
    by (simp add: ex_world_def model_defs)
  then show ?thesis
    by (simp add: v load_and_validate_models_def ex_ext_def)
qed

text \<open>
  C8, as the code has it. For a quantized entry with a projector locator, after the
  directory is made: when the primary fetch raises (a missing local source, a
  content-length that \<open>int\<close> cannot read, a destination that cannot be opened), the
  exception ends \<open>download_model_files\<close> and the auxiliary fetch is not attempted; when the
  primary fetch returns, which it also does after a request failure it caught and printed,
  the auxiliary fetch is attempted. Whatever the auxiliary fetch does, every file and
  directory present after the primary fetch is still there with the same content.
\<close>

theorem auxiliary_fetch_policy:
  assumes "mkdir_parents w (gguf_model_directory w m) = Inr w1"
    and "download_file X (url m)
           (truediv (gguf_model_directory w m) (Path_of (primary_filename m))) w1 = (r, w2)"
    and "mmproj m = Some a" and "a \<noteq> []"
  shows "download_model_files X (GGUFModel m) w
           = (case r of
                Inl e \<Rightarrow> (Inl e, w2)
              | Inr v \<Rightarrow>
                  download_file X a
                    (truediv (gguf_model_directory w m) (Path_of (mmproj_filename m))) w2)
       \<and> (\<not> startswith (url m) ''file://''
            \<and> \<not> path_exists w1 (truediv (gguf_model_directory w m) (Path_of (primary_filename m)))
            \<and> requests_get X (requests_made w1) (url m) = GetRaises
           \<longrightarrow> r = Inr ())
       \<and> nodes w2 \<subseteq>\<^sub>m
           nodes (snd (download_file X a
                         (truediv (gguf_model_directory w m) (Path_of (mmproj_filename m))) w2))"
proof -
  let ?P = "truediv (gguf_model_directory w m) (Path_of (primary_filename m))"
  let ?A = "truediv (gguf_model_directory w m) (Path_of (mmproj_filename m))"
  have run: "download_model_files X (GGUFModel m) w
           = (case r of Inl e \<Rightarrow> (Inl e, w2) | Inr v \<Rightarrow> download_file X a ?A w2)"
    using assms by (simp add: Let_def split: sum.splits)
  have caught: "\<not> startswith (url m) ''file://'' \<and> \<not> path_exists w1 ?P
            \<and> requests_get X (requests_made w1) (url m) = GetRaises \<longrightarrow> r = Inr ()"
    using assms(2) by (auto simp: download_file_get_raises)
  obtain r3 w3 where aux: "download_file X a ?A w2 = (r3, w3)"
    by (cases "download_file X a ?A w2")
  from download_file_frame [OF aux] have "nodes w2 \<subseteq>\<^sub>m nodes (snd (download_file X a ?A w2))"
    by (simp add: aux)
  with run caught show ?thesis by blast
qed

theorem auxiliary_fetch_policy_witness:
  "download_model_files (ex_ext ex_manifest GetRaises) (GGUFModel ex_mm) ex_world
     = download_file (ex_ext ex_manifest GetRaises) ''http://h/a''
         (truediv (gguf_model_directory ex_world ex_mm) (Path_of (mmproj_filename ex_mm)))
         (snd (download_file (ex_ext ex_manifest GetRaises) ''http://h/p''
                 (truediv (gguf_model_directory ex_world ex_mm) (Path_of (primary_filename ex_mm)))
                 (projr (mkdir_parents ex_world (gguf_model_directory ex_world ex_mm)))))"
proof -
  let ?X = "ex_ext ex_manifest GetRaises"
  let ?D = "gguf_model_directory ex_world ex_mm"
  let ?P = "truediv ?D (Path_of (primary_filename ex_mm))"
  let ?w1 = "projr (mkdir_parents ex_world ?D)"
  have dir: "?D = Path ''/'' [''w'', ''models'', ''gguf'', ''q'']"
    by (simp add: ex_defs model_defs)
  have "\<exists>w1. mkdir_parents ex_world (Path ''/'' [''w'', ''models'', ''gguf'', ''q'']) = Inr w1"
    by (simp add: ex_defs model_defs)
  then have mk: "mkdir_parents ex_world ?D = Inr ?w1"
    by (auto simp: dir)
  have fields: "url ex_mm = ''http://h/p''" "mmproj ex_mm = Some ''http://h/a''"
    by (simp_all add: ex_mm_def)
  have nf: "\<not> startswith (url ex_mm) ''file://''"
    by (simp add: fields startswith_def)
  have absent: "\<not> path_exists ?w1 ?P"
    by (simp add: ex_defs model_defs)
  have g: "requests_get ?X (requests_made ?w1) (url ex_mm) = GetRaises"
    by (simp add: ex_ext_def)
  have d: "download_file ?X (url ex_mm) ?P ?w1
             = (fst (download_file ?X (url ex_mm) ?P ?w1), snd (download_file ?X (url ex_mm) ?P ?w1))"
    by simp
  have a: "''http://h/a'' \<noteq> []" by simp
  from auxiliary_fetch_policy [OF mk d fields(2) a] nf absent g
  have "fst (download_file ?X (url ex_mm) ?P ?w1) = Inr ()"
    and "download_model_files ?X (GGUFModel ex_mm) ex_world
           = (case fst (download_file ?X (url ex_mm) ?P ?w1) of
                Inl e \<Rightarrow> (Inl e, snd (download_file ?X (url ex_mm) ?P ?w1))
              | Inr v \<Rightarrow>
                  download_file ?X ''http://h/a'' (truediv ?D (Path_of (mmproj_filename ex_mm)))
                    (snd (download_file ?X (url ex_mm) ?P ?w1)))"
    by blast+
  then show ?thesis by (simp add: fields)
qed

text \<open>
  Against C8 as stated: the primary request is refused, the error is printed, and the
  projector is requested all the same.
\<close>

theorem auxiliary_after_failed_primary_counterexample:
  "trace (snd (download_model_files (ex_ext ex_manifest GetRaises) (GGUFModel ex_mm) ex_world))
     = [HttpGet ''http://h/p'', Print ''Error downloading the file:'',
        HttpGet ''http://h/a'', Print ''Error downloading the file:'']"
  by (simp add: ex_defs model_defs)

text \<open>
  C9. The models root a run uses is \<open>MODELS_DIR\<close> (default \<open>models\<close>) joined to the
  working directory, and nothing else. \<open>download_models\<close> never reads its \<open>models_dir\<close>
  option: two runs that differ only in \<open>--models-dir\<close> return the same result and leave
  the same process state. And the root is the one the run resolves and writes with:
  every destination a run opens for writing is the primary or the projector path of an
  entry of the manifest under that root, and every node of the file system the run
  changes is such a file, the directory of such an entry or one of its ancestors. When
  the manifest does not load, no node changes.
\<close>

theorem models_dir_option_unused:
  "download_models X models_file models_dir overwrite w
     = download_models X models_file models_dir' overwrite w
   \<and> get_models_directory w = env_models_root w
   \<and> (load_and_validate_models X (os_path_join (cwd w) models_file) w = (Inr (JDict kvs), w0)
        \<and> map_of kvs ''ggufs'' = Some (JList items)
      \<longrightarrow> (OpenWrite p \<in> set (new_events w (snd (download_models X models_file models_dir overwrite w)))
            \<longrightarrow> (\<exists>g. Inr g \<in> parse_GGUFModelsConfig ` set items
                     \<and> p \<in> artifact_paths (env_models_root w) g))
        \<and> (nodes (snd (download_models X models_file models_dir overwrite w)) k \<noteq> nodes w k
            \<longrightarrow> (\<exists>g. Inr g \<in> parse_GGUFModelsConfig ` set items
                     \<and> k \<in> artifact_keys (cwd w) (env_models_root w) g)))
   \<and> (load_and_validate_models X (os_path_join (cwd w) models_file) w = (Inl e, w0)
      \<longrightarrow> nodes (snd (download_models X models_file models_dir overwrite w)) = nodes w)"
proof -
  obtain r w' where run: "download_models X models_file models_dir overwrite w = (r, w')"
    by (cases "download_models X models_file models_dir overwrite w")
  have same: "download_models X models_file models_dir overwrite w
     = download_models X models_file models_dir' overwrite w"
    by (simp add: download_models_def)
  have root: "get_models_directory w = env_models_root w"
    by (simp add: get_models_directory_def env_models_root_def)
  have writes: "(OpenWrite p \<in> set (new_events w w')
            \<longrightarrow> (\<exists>g. Inr g \<in> parse_GGUFModelsConfig ` set items
                     \<and> p \<in> artifact_paths (env_models_root w) g))
        \<and> (nodes w' k \<noteq> nodes w k
            \<longrightarrow> (\<exists>g. Inr g \<in> parse_GGUFModelsConfig ` set items
                     \<and> k \<in> artifact_keys (cwd w) (env_models_root w) g))"
    if l: "load_and_validate_models X (os_path_join (cwd w) models_file) w = (Inr (JDict kvs), w0)"
      and i: "map_of kvs ''ggufs'' = Some (JList items)"
    using download_models_footprint [OF run l i] unfolding footprint_def by blast
  have failed: "nodes w' = nodes w"
    if l: "load_and_validate_models X (os_path_join (cwd w) models_file) w = (Inl e, w0)"
    using run l load_and_validate_models_frame [OF l]
    by (auto simp: download_models_def Let_def)
  from same root writes failed show ?thesis
    unfolding run snd_conv by blast
qed

theorem models_dir_option_unused_witness:
  "download_models (ex_ext ex_manifest GetRaises) ''models.json'' ''a'' False ex_world_env
     = download_models (ex_ext ex_manifest GetRaises) ''models.json'' ''/b'' False ex_world_env
   \<and> get_models_directory ex_world_env = Path ''/'' [''w'', ''m'']
   \<and> nodes (snd (download_models (ex_ext ex_manifest GetRaises) ''models.json'' ''a'' False
                   ex_world_env)) [''w'', ''m'', ''gguf'', ''q'', ''q.gguf''] = Some (File ''abc'')
   \<and> (\<exists>g. Inr g \<in> parse_GGUFModelsConfig
                    ` set [JDict [(''name'', JStr ''q''), (''description'', JStr ''d''),
                                  (''url'', JStr ''file:///w/f'')]]
          \<and> [''w'', ''m'', ''gguf'', ''q'', ''q.gguf'']
              \<in> artifact_keys ''/w'' (Path ''/'' [''w'', ''m'']) g)"
proof -
  let ?X = "ex_ext ex_manifest GetRaises"
  let ?fs = "[(''name'', JStr ''q''), (''description'', JStr ''d''), (''url'', JStr ''file:///w/f'')]"
  let ?kvs = "[(''ggufs'', JList [JDict ?fs]),
               (''safetensors'', JList [JDict [(''name'', JStr ''t''), (''description'', JStr ''d'')]])]"
  let ?k = "[''w'', ''m'', ''gguf'', ''q'', ''q.gguf'']"
  have l: "load_and_validate_models ?X (os_path_join (cwd ex_world_env) ''models.json'') ex_world_env
             = (Inr (JDict ?kvs), emit (LogInfo ''Models validated.'') ex_world_env)"
    using ex_env_load [of GetRaises] by (simp add: ex_manifest_def)
  have i: "map_of ?kvs ''ggufs'' = Some (JList [JDict ?fs])" by simp
  have written: "nodes (snd (download_models ?X ''models.json'' ''a'' False ex_world_env)) ?k
                   = Some (File ''abc'')"
    using ex_env_files [of GetRaises] by (simp add: ex_env_run)
  have before: "nodes ex_world_env ?k = None"
    by (simp add: ex_world_env_def ex_world_def)
  have r: "env_models_root ex_world_env = Path ''/'' [''w'', ''m'']" "cwd ex_world_env = ''/w''"
    by (simp_all add: env_models_root_def ex_world_env_def ex_world_def Path_of_def splitroot_def
        truediv_def)
  note t = models_dir_option_unused [of ?X "''models.json''" "''a''" False ex_world_env "''/b''"
      ?kvs "emit (LogInfo ''Models validated.'') ex_world_env" "[JDict ?fs]" _ ?k]
  from t l i written before
  have "\<exists>g. Inr g \<in> parse_GGUFModelsConfig ` set [JDict ?fs]
          \<and> ?k \<in> artifact_keys (cwd ex_world_env) (env_models_root ex_world_env) g"
    by (metis option.distinct(1))
  moreover from t
  have "download_models ?X ''models.json'' ''a'' False ex_world_env
          = download_models ?X ''models.json'' ''/b'' False ex_world_env"
    and "get_models_directory ex_world_env = env_models_root ex_world_env"
    by blast+
  ultimately show ?thesis using written by (simp add: r)
qed

text \<open>
  C10. \<open>download_models\<close> never reads its \<open>overwrite\<close> option: two runs that differ only
  in \<open>--overwrite\<close> return the same result and leave the same process state. Whatever the
  flag, a file that is there before the run is there after it with the same content, and
  \<open>_download_file\<close> on a destination that exists changes no file, makes no request and
  performs no transfer.
\<close>

theorem overwrite_option_unused:
  "download_models X models_file models_dir overwrite w
     = download_models X models_file models_dir overwrite' w
   \<and> (nodes w k = Some (File c)
        \<longrightarrow> nodes (snd (download_models X models_file models_dir overwrite w)) k = Some (File c))
   \<and> (path_exists w d
        \<longrightarrow> nodes (snd (download_file X u d w)) = nodes w
          \<and> requests_made (snd (download_file X u d w)) = requests_made w
          \<and> filter transfer_io (new_events w (snd (download_file X u d w))) = [])"
proof -
  obtain r w' where run: "download_models X models_file models_dir overwrite w = (r, w')"
    by (cases "download_models X models_file models_dir overwrite w")
  from download_models_frame[OF run] have "nodes w \<subseteq>\<^sub>m nodes w'" by simp
  then have kept: "nodes w k = Some (File c) \<longrightarrow> nodes w' k = Some (File c)"
    by (auto simp: map_le_def dom_def)
  have same: "download_models X models_file models_dir overwrite w
                = download_models X models_file models_dir overwrite' w"
    by (simp add: download_models_def)
  have skip: "path_exists w d
        \<longrightarrow> nodes (snd (download_file X u d w)) = nodes w
          \<and> requests_made (snd (download_file X u d w)) = requests_made w
          \<and> filter transfer_io (new_events w (snd (download_file X u d w))) = []"
    by (simp add: download_file_def new_events_def)
  from kept have "nodes w k = Some (File c)
        \<longrightarrow> nodes (snd (download_models X models_file models_dir overwrite w)) k = Some (File c)"
    by (simp add: run)
  with same skip show ?thesis by blast
qed

theorem overwrite_option_unused_witness:
  "download_models (ex_ext ex_manifest GetRaises) ''models.json'' ''models'' True ex_world
     = download_models (ex_ext ex_manifest GetRaises) ''models.json'' ''models'' False ex_world
   \<and> nodes (snd (download_models (ex_ext ex_manifest GetRaises) ''models.json'' ''models'' True
                   ex_world)) [''w'', ''f''] = Some (File ''abc'')
   \<and> nodes (snd (download_file (ex_ext ex_manifest GetRaises) ''http://h/a'' (Path ''/'' [''w'', ''f''])
                   ex_world)) = nodes ex_world"
proof -
  have h1: "nodes ex_world [''w'', ''f''] = Some (File ''abc'')"
    by (simp add: ex_world_def)
  have h2: "path_exists ex_world (Path ''/'' [''w'', ''f''])"
    by (simp add: ex_world_def path_exists_def stat_path_def stat_key_def abs_key_def is_File_def)
  show ?thesis
    using overwrite_option_unused [of "ex_ext ex_manifest GetRaises" "''models.json''" "''models''"
        True ex_world False "[''w'', ''f'']" "''abc''" "Path ''/'' [''w'', ''f'']" "''http://h/a''"]
      h1 h2
    by blast
qed

end
